theory Spec2Isabelle
  imports Complex_Main
begin

section \<open>Arrays and errors\<close>

text \<open>
  The inference engines of \<^verbatim>\<open>gprn/npvi.py\<close> and
  \<^verbatim>\<open>oldFiles/experimental_stuff/mfi_old.py\<close> compute on numpy arrays of
  floats. A one-dimensional array is a list of reals, a two-dimensional array the list of
  its rows, and floats are read as the reals they stand for. An exception is a value of
  \<open>error\<close>; a function that can raise returns \<open>error + 'a\<close>.
\<close>

type_synonym vec = "real list"
type_synonym mat = "real list list"
type_synonym tensor3 = "real list list list"

datatype error =
    LinAlgError
  | ValueError
  | TypeError
  | IndexError
  | UnboundLocalError
  | AssertionError string

text \<open>\<^verbatim>\<open>A.shape[1]\<close> of a two-dimensional array given by its rows.\<close>

definition ncols :: "mat \<Rightarrow> nat" where
  "ncols A = (if A = [] then 0 else length (hd A))"

definition has_shape :: "mat \<Rightarrow> nat \<Rightarrow> nat \<Rightarrow> bool" where
  "has_shape A h w = (length A = h \<and> list_all (\<lambda>r. length r = w) A)"

text \<open>\<^verbatim>\<open>np.diag(A)\<close> of a two-dimensional array: its main diagonal.\<close>

definition np_diag :: "mat \<Rightarrow> vec" where
  "np_diag A = map (\<lambda>i. A ! i ! i) [0..<min (length A) (ncols A)]"

text \<open>
  \<^verbatim>\<open>v.mean()\<close>. On an empty array numpy gives \<^verbatim>\<open>nan\<close> (with a
  warning), which the reals do not have: the theorems below keep to non-empty arrays.
\<close>

definition np_mean :: "vec \<Rightarrow> real" where
  "np_mean v = sum_list v / real (length v)"

definition np_identity :: "nat \<Rightarrow> mat" where
  "np_identity n = map (\<lambda>i. map (\<lambda>j. if i = j then 1 else 0) [0..<n]) [0..<n]"

definition np_scale :: "real \<Rightarrow> mat \<Rightarrow> mat" where
  "np_scale c A = map (map (\<lambda>x. c * x)) A"

text \<open>
  Broadcasting of two axis lengths, and \<^verbatim>\<open>A + B\<close> on two-dimensional arrays:
  an axis of length 1 is stretched to the other array's length, any other mismatch raises
  \<^verbatim>\<open>ValueError\<close>.
\<close>

definition bdim :: "nat \<Rightarrow> nat \<Rightarrow> nat option" where
  "bdim a b = (if a = b then Some a else if a = 1 then Some b
               else if b = 1 then Some a else None)"

definition bget :: "mat \<Rightarrow> nat \<Rightarrow> nat \<Rightarrow> real" where
  "bget A i j = A ! (if length A = 1 then 0 else i) ! (if ncols A = 1 then 0 else j)"

definition np_add :: "mat \<Rightarrow> mat \<Rightarrow> error + mat" where
  "np_add A B =
     (case bdim (length A) (length B) of
        None \<Rightarrow> Inl ValueError
      | Some h \<Rightarrow>
         (case bdim (ncols A) (ncols B) of
            None \<Rightarrow> Inl ValueError
          | Some w \<Rightarrow> Inr (map (\<lambda>i. map (\<lambda>j. bget A i j + bget B i j) [0..<w]) [0..<h])))"

text \<open>\<^verbatim>\<open>A.T\<close> and \<^verbatim>\<open>A @ B\<close> on two-dimensional arrays.\<close>

definition np_T :: "mat \<Rightarrow> mat" where
  "np_T A = map (\<lambda>j. map (\<lambda>i. A ! i ! j) [0..<length A]) [0..<ncols A]"

definition matmul :: "mat \<Rightarrow> mat \<Rightarrow> mat" where
  "matmul A B =
     map (\<lambda>i. map (\<lambda>j. \<Sum>k<length B. A ! i ! k * B ! k ! j) [0..<ncols B]) [0..<length A]"


section \<open>Stable Cholesky factorisation: \<^verbatim>\<open>_cholNugget\<close>\<close>

text \<open>
  \<^verbatim>\<open>scipy.linalg.cholesky\<close> is library code: it is a parameter
  \<open>cholesky\<close>, which returns the upper factor or raises. The two engines have the same
  \<^verbatim>\<open>_cholNugget\<close> but for the text of the banner. What the method prints is
  kept as a list of lines: the banner, and one line per retry with the retry's number and
  the nugget it tries.
\<close>

datatype line = Banner | Retry nat real

text \<open>\<^verbatim>\<open>np.abs(np.diag(matrix).mean()) * 1e-5\<close>\<close>

definition baseline_nugget :: "mat \<Rightarrow> real" where
  "baseline_nugget matrix = \<bar>np_mean (np_diag matrix)\<bar> * (1 / 100000)"

text \<open>\<^verbatim>\<open>matrix + nugget*np.identity(matrix.shape[0])\<close>\<close>

definition add_nugget :: "mat \<Rightarrow> real \<Rightarrow> error + mat" where
  "add_nugget matrix nugget = np_add matrix (np_scale nugget (np_identity (length matrix)))"

function cholNugget_loop ::
  "(mat \<Rightarrow> error + mat) \<Rightarrow> mat \<Rightarrow> nat \<Rightarrow> nat \<Rightarrow> real \<Rightarrow> line list
     \<Rightarrow> line list \<times> (error + mat \<times> real)" where
  "cholNugget_loop cholesky matrix maximum n nugget out =
     (if n < maximum then
        (case add_nugget matrix nugget of
           Inl e \<Rightarrow> (out @ [Retry (n + 1) nugget], Inl e)
         | Inr A \<Rightarrow>
            (case cholesky A of
               Inr U \<Rightarrow> (out @ [Retry (n + 1) nugget], Inr (np_T U, nugget))
             | Inl e \<Rightarrow>
                if e = LinAlgError
                then cholNugget_loop cholesky matrix maximum (n + 1) (nugget * 10)
                       (out @ [Retry (n + 1) nugget])
                else (out @ [Retry (n + 1) nugget], Inl e)))
      else (out, Inl LinAlgError))"
  by pat_completeness auto
termination
  by (relation "measure (\<lambda>(cholesky, matrix, maximum, n, nugget, out). maximum - n)") auto

declare cholNugget_loop.simps [simp del]

definition cholNugget ::
  "(mat \<Rightarrow> error + mat) \<Rightarrow> mat \<Rightarrow> nat \<Rightarrow> line list \<times> (error + mat \<times> real)" where
  "cholNugget cholesky matrix maximum =
     (let nugget = 0;
          nugget = nugget + baseline_nugget matrix
      in case cholesky matrix of
           Inr U \<Rightarrow> ([], Inr (np_T U, nugget))
         | Inl e \<Rightarrow>
            if e = LinAlgError
            then cholNugget_loop cholesky matrix maximum 0 nugget [Banner]
            else ([], Inl e))"

text \<open>
  The vocabulary of the statements about \<^verbatim>\<open>_cholNugget\<close>: the matrix
  \<open>M + g\<cdot>I\<close> entry by entry, triangular matrices, symmetric positive-definite
  matrices, and the mean of the absolute values of the diagonal.
\<close>

definition regularised :: "mat \<Rightarrow> real \<Rightarrow> mat" where
  "regularised M g =
     map (\<lambda>i. map (\<lambda>j. M ! i ! j + (if i = j then g else 0)) [0..<length M]) [0..<length M]"

definition upper_triangular :: "mat \<Rightarrow> bool" where
  "upper_triangular U = (\<forall>i<length U. \<forall>j<i. U ! i ! j = 0)"

definition lower_triangular :: "mat \<Rightarrow> bool" where
  "lower_triangular L = (\<forall>i<length L. \<forall>j<length (L ! i). i < j \<longrightarrow> L ! i ! j = 0)"

definition quad_form :: "mat \<Rightarrow> vec \<Rightarrow> real" where
  "quad_form M x = (\<Sum>i<length M. \<Sum>j<length M. x ! i * M ! i ! j * x ! j)"

definition is_spd :: "mat \<Rightarrow> bool" where
  "is_spd M =
     (M \<noteq> [] \<and> has_shape M (length M) (length M) \<and>
      (\<forall>i<length M. \<forall>j<length M. M ! i ! j = M ! j ! i) \<and>
      (\<forall>x. length x = length M \<and> (\<exists>i<length M. x ! i \<noteq> 0) \<longrightarrow> 0 < quad_form M x))"

definition mean_abs_diag :: "mat \<Rightarrow> real" where
  "mean_abs_diag M = np_mean (map abs (np_diag M))"


section \<open>Kernels, \<^verbatim>\<open>_kernelMatrix\<close> and \<^verbatim>\<open>_predictKernelMatrix\<close>\<close>

text \<open>
  The kernel classes live in \<^verbatim>\<open>gprn.covFunction\<close>, which the engines import and
  only call. A kernel is therefore its class, as far as the \<^verbatim>\<open>isinstance\<close> tests
  of the engines tell classes apart, and its two ways of being called, both parameters:
  \<^verbatim>\<open>kernel(r)\<close> on a matrix of lags, and \<^verbatim>\<open>kernel(None, t1, t2)\<close> on two
  arrays of times. Each call returns a two-dimensional array or raises.
\<close>

datatype ndarray = Arr0 real | Arr1 vec | Arr2 mat

datatype kernel_class = Linear | Polynomial | WhiteNoise | Stationary

record kernel =
  kernel_class :: kernel_class
  call_r :: "mat \<Rightarrow> error + mat"
  call_t :: "ndarray \<Rightarrow> ndarray \<Rightarrow> error + mat"

text \<open>
  The fields of the engine that \<^verbatim>\<open>__init__\<close> sets: field \<open>self_q\<close> is
  \<^verbatim>\<open>self.q\<close>, and so on. The mean functions are
  callables of \<^verbatim>\<open>gprn\<close>'s mean-function module, or \<^verbatim>\<open>None\<close>.
\<close>

type_synonym meanfun = "(vec \<Rightarrow> error + vec) option"

record inference =
  self_nodes :: "kernel list"
  self_weight :: kernel
  self_means :: "meanfun list"
  self_jitters :: vec
  self_time :: vec
  self_args :: "vec list"
  self_q :: nat
  self_p :: nat
  self_qp :: nat
  self_N :: nat
  self_tt :: vec
  self_y :: mat
  self_yerr :: mat

text \<open>\<^verbatim>\<open>a[:, None] - b[None, :]\<close>, \<^verbatim>\<open>np.ones_like(r)\<close>, and
  \<^verbatim>\<open>np.diag(v)\<close> of a one-dimensional array.\<close>

definition lag_matrix :: "vec \<Rightarrow> vec \<Rightarrow> mat" where
  "lag_matrix a b = map (\<lambda>x. map (\<lambda>y. x - y) b) a"

definition np_ones_like :: "mat \<Rightarrow> mat" where
  "np_ones_like r = map (map (\<lambda>x. 1)) r"

definition np_diagflat :: "vec \<Rightarrow> mat" where
  "np_diagflat v =
     map (\<lambda>i. map (\<lambda>j. if i = j then v ! i else 0) [0..<length v]) [0..<length v]"

text \<open>
  \<^verbatim>\<open>_kernelMatrix\<close>. The two engines differ in the constant \<open>c\<close> only:
  \<^verbatim>\<open>1e-5\<close> in \<^verbatim>\<open>npvi.py\<close>, \<^verbatim>\<open>1e-6\<close> in
  \<^verbatim>\<open>mfi_old.py\<close>.
\<close>

definition kernelMatrix :: "real \<Rightarrow> kernel \<Rightarrow> vec \<Rightarrow> error + mat" where
  "kernelMatrix c kernel' time =
     (let r = lag_matrix time time
      in if kernel_class kernel' = Linear \<or> kernel_class kernel' = Polynomial
         then call_t kernel' (Arr2 (map (\<lambda>x. [x]) time)) (Arr2 [time])
         else (case call_r kernel' r of
                 Inl e \<Rightarrow> Inl e
               | Inr K \<Rightarrow> np_add K (np_scale c (np_diagflat (np_diag (np_ones_like r))))))"

definition kernelMatrix_npvi :: "kernel \<Rightarrow> vec \<Rightarrow> error + mat" where
  "kernelMatrix_npvi = kernelMatrix (1 / 100000)"

definition kernelMatrix_mfi_old :: "kernel \<Rightarrow> vec \<Rightarrow> error + mat" where
  "kernelMatrix_mfi_old = kernelMatrix (1 / 1000000)"

text \<open>
  \<^verbatim>\<open>_predictKernelMatrix(kernel, time)\<close>, the same in both engines. The query
  \<open>time\<close> is a numpy float (\<^verbatim>\<open>Prediction\<close> passes \<^verbatim>\<open>tstar[n]\<close>) or a
  one-dimensional array. The first
  \<^verbatim>\<open>if\<close> has no \<^verbatim>\<open>else\<close>: the second statement is an
  \<^verbatim>\<open>if\<close>, not an \<^verbatim>\<open>elif\<close>, so the value the first one binds to
  \<open>K\<close> is overwritten by one of the branches of the second.
\<close>

datatype query = Scalar real | Times vec

definition query_size :: "query \<Rightarrow> nat" where
  "query_size time = (case time of Scalar t \<Rightarrow> 1 | Times v \<Rightarrow> length v)"

definition query_array :: "query \<Rightarrow> ndarray" where
  "query_array time = (case time of Scalar t \<Rightarrow> Arr0 t | Times v \<Rightarrow> Arr1 v)"

definition query_values :: "query \<Rightarrow> vec" where
  "query_values time = (case time of Scalar t \<Rightarrow> [t] | Times v \<Rightarrow> v)"

definition predictKernelMatrix ::
  "('z inference_scheme) \<Rightarrow> kernel \<Rightarrow> query \<Rightarrow> error + ndarray" where
  "predictKernelMatrix self kernel' time =
     (case (if kernel_class kernel' = Linear \<or> kernel_class kernel' = Polynomial
            then (case call_t kernel' (query_array time) (Arr2 [self_time self]) of
                    Inl e \<Rightarrow> Inl e
                  | Inr K \<Rightarrow> Inr (Some K))
            else Inr None) of
        Inl e \<Rightarrow> Inl e
      | Inr K \<Rightarrow>
         if kernel_class kernel' = WhiteNoise
         then Inr (Arr1 (map (\<lambda>t. 0 * 1) (self_time self)))
         else (let r = (if query_size time = 1
                        then map (\<lambda>t. map (\<lambda>s. t - s) (self_time self)) (query_values time)
                        else lag_matrix (query_values time) (self_time self))
               in case call_r kernel' r of
                    Inl e \<Rightarrow> Inl e
                  | Inr K \<Rightarrow> Inr (Arr2 K)))"


section \<open>The block covariance matrix: \<^verbatim>\<open>_CB_matrix\<close>\<close>

text \<open>A \<^verbatim>\<open>for\<close> loop whose body may raise: the first exception ends it.\<close>

fun for_loop :: "('i \<Rightarrow> 's \<Rightarrow> error + 's) \<Rightarrow> 'i list \<Rightarrow> 's \<Rightarrow> error + 's" where
  "for_loop body [] s = Inr s"
| "for_loop body (i # is) s =
     (case body i s of Inl e \<Rightarrow> Inl e | Inr s' \<Rightarrow> for_loop body is s')"

definition np_zeros :: "nat \<Rightarrow> nat \<Rightarrow> mat" where
  "np_zeros h w = replicate h (replicate w 0)"

text \<open>
  \<^verbatim>\<open>CB[pos:pos+n, pos:pos+n] = V\<close>: both slices are clipped to the array, and
  \<open>V\<close> is broadcast to the shape of the window or the assignment raises
  \<^verbatim>\<open>ValueError\<close>.
\<close>

definition assign_block :: "mat \<Rightarrow> nat \<Rightarrow> nat \<Rightarrow> mat \<Rightarrow> error + mat" where
  "assign_block CB pos n V =
     (let h = min (pos + n) (length CB) - min pos (length CB);
          w = min (pos + n) (ncols CB) - min pos (ncols CB)
      in if (length V = h \<or> length V = 1) \<and> (ncols V = w \<or> ncols V = 1)
         then Inr (map (\<lambda>a. map (\<lambda>b. if pos \<le> a \<and> a < pos + n \<and> pos \<le> b \<and> b < pos + n
                                      then bget V (a - pos) (b - pos)
                                      else CB ! a ! b)
                             [0..<ncols CB])
                   [0..<length CB])
         else Inl ValueError)"

definition CB_matrix ::
  "real \<Rightarrow> ('z inference_scheme) \<Rightarrow> kernel list \<Rightarrow> kernel \<Rightarrow> vec \<Rightarrow> error + mat" where
  "CB_matrix c self nodes weight time =
     (let CB_size = length time * self_q self * (self_p self + 1);
          CB = np_zeros CB_size CB_size;
          pos = 0
      in case for_loop
                (\<lambda>i (CB, pos).
                   if i < length nodes
                   then (case kernelMatrix c (nodes ! i) time of
                           Inl e \<Rightarrow> Inl e
                         | Inr node_CovMatrix \<Rightarrow>
                            (case assign_block CB pos (length time) node_CovMatrix of
                               Inl e \<Rightarrow> Inl e
                             | Inr CB \<Rightarrow> Inr (CB, pos + length time)))
                   else Inl IndexError)
                [0..<self_q self] (CB, pos) of
           Inl e \<Rightarrow> Inl e
         | Inr (CB, pos) \<Rightarrow>
            (case kernelMatrix c weight time of
               Inl e \<Rightarrow> Inl e
             | Inr weight_CovMatrix \<Rightarrow>
                (case for_loop
                        (\<lambda>i (CB, pos).
                           case assign_block CB pos (length time) weight_CovMatrix of
                             Inl e \<Rightarrow> Inl e
                           | Inr CB \<Rightarrow> Inr (CB, pos + length time))
                        [0..<self_qp self] (CB, pos) of
                   Inl e \<Rightarrow> Inl e
                 | Inr (CB, pos) \<Rightarrow> Inr CB)))"

text \<open>
  The block-diagonal matrix of a list of \<open>n \<times> n\<close> blocks, to state what
  \<^verbatim>\<open>_CB_matrix\<close> builds: entry \<open>(a, b)\<close> lies in block \<open>a div n\<close> when
  \<open>a div n = b div n\<close>, and is zero otherwise.
\<close>

definition block_diagonal :: "nat \<Rightarrow> mat list \<Rightarrow> mat" where
  "block_diagonal n Bs =
     map (\<lambda>a. map (\<lambda>b. if a div n = b div n then Bs ! (a div n) ! (a mod n) ! (b mod n) else 0)
                 [0..<n * length Bs])
         [0..<n * length Bs]"

text \<open>The same matrix with its first \<open>k\<close> blocks only: what the loops of
  \<^verbatim>\<open>_CB_matrix\<close> hold after \<open>k\<close> assignments.\<close>

definition blocks_upto :: "nat \<Rightarrow> mat list \<Rightarrow> nat \<Rightarrow> mat" where
  "blocks_upto n Bs k =
     map (\<lambda>a. map (\<lambda>b. if a div n = b div n \<and> a div n < k
                          then Bs ! (a div n) ! (a mod n) ! (b mod n) else 0)
                 [0..<n * length Bs])
         [0..<n * length Bs]"


section \<open>Construction of the engine: \<^verbatim>\<open>__init__\<close>\<close>

text \<open>
  \<^verbatim>\<open>np.array(ys).reshape(p, N)\<close> for a list \<open>ys\<close> of one-dimensional arrays.
  Arrays of one length stack to a two-dimensional array, whose elements are then cut into
  \<open>p\<close> rows of \<open>N\<close>; the reshape raises \<^verbatim>\<open>ValueError\<close> when the number of
  elements is not \<open>p\<cdot>N\<close>. Arrays of different lengths do not stack: current numpy raises
  \<^verbatim>\<open>ValueError\<close> there, which is what is modelled.
\<close>

definition reshape_rows :: "vec \<Rightarrow> nat \<Rightarrow> nat \<Rightarrow> error + mat" where
  "reshape_rows flat h w =
     (if length flat = h * w
      then Inr (map (\<lambda>i. take w (drop (i * w) flat)) [0..<h])
      else Inl ValueError)"

definition stack_reshape :: "vec list \<Rightarrow> nat \<Rightarrow> nat \<Rightarrow> error + mat" where
  "stack_reshape ys h w =
     (if list_all (\<lambda>v. length v = length (hd ys)) ys
      then reshape_rows (concat ys) h w
      else Inl ValueError)"

text \<open>
  \<^verbatim>\<open>__init__(self, nodes, weight, means, jitters, time, *args)\<close>, the same in both
  engines. The number of outputs is not an argument: it is
  \<^verbatim>\<open>int(len(args)/2)\<close>. The loop variable \<open>i\<close> of the loop over
  \<^verbatim>\<open>enumerate(args)\<close> is read after the loop, where it is the last index, and is
  unbound when \<open>args\<close> is empty. The messages of the two assertions are constants.
\<close>

definition init ::
  "kernel list \<Rightarrow> kernel \<Rightarrow> meanfun list \<Rightarrow> vec \<Rightarrow> vec \<Rightarrow> vec list \<Rightarrow> error + inference" where
  "init nodes weight means jitters time args =
     (let q = length nodes;
          p = length args div 2;
          qp = q * p;
          N = length time;
          tt = concat (replicate p time);
          ys = map (\<lambda>i. args ! i) (filter (\<lambda>i. i mod 2 = 0) [0..<length args]);
          yerrs = map (\<lambda>i. args ! i) (filter (\<lambda>i. i mod 2 \<noteq> 0) [0..<length args])
      in case stack_reshape ys p N of
           Inl e \<Rightarrow> Inl e
         | Inr y \<Rightarrow>
            (case stack_reshape yerrs p N of
               Inl e \<Rightarrow> Inl e
             | Inr yerr \<Rightarrow>
                if length means \<noteq> p
                then Inl (AssertionError
                  ''The numbers of means should be equal to the number of components'')
                else if args = [] then Inl UnboundLocalError
                else if (real (length args - 1) + 1) / 2 \<noteq> real p
                then Inl (AssertionError ''Given data and number of components dont match'')
                else Inr \<lparr>self_nodes = nodes, self_weight = weight, self_means = means,
                          self_jitters = jitters, self_time = time, self_args = args,
                          self_q = q, self_p = p, self_qp = qp, self_N = N, self_tt = tt,
                          self_y = y, self_yerr = yerr\<rparr>))"


section \<open>The noise term of the mean-field updates\<close>

text \<open>
  The statements that set \<^verbatim>\<open>error_term\<close> in \<^verbatim>\<open>_updateSigmaMu_new\<close>
  and in \<^verbatim>\<open>_expectedLogLike_new\<close> of \<^verbatim>\<open>mfi_old.py\<close>, the same in both
  methods, as a function of \<^verbatim>\<open>self.p\<close>, \<^verbatim>\<open>self.N\<close>,
  \<^verbatim>\<open>self.yerr\<close> and \<open>jitters\<close>:
  \<^verbatim>\<open>
  error_term = np.sqrt(np.sum(np.array(jitters)**2)) / self.p
  for i in range(self.p):
      error_term += np.sqrt(np.sum(self.yerr[i,:]**2)) / (self.N)
  error_term = error_term
  error_term = 1
  \<close>
  A numpy float divided by zero is \<^verbatim>\<open>inf\<close> or \<^verbatim>\<open>nan\<close> with a warning,
  not an exception, so the block never raises.
\<close>

definition error_term_block :: "nat \<Rightarrow> nat \<Rightarrow> mat \<Rightarrow> vec \<Rightarrow> real" where
  "error_term_block p N yerr jitters =
     (let error_term = sqrt (sum_list (map (\<lambda>x. x\<^sup>2) jitters)) / real p;
          error_term = fold (\<lambda>i error_term.
                               error_term + sqrt (sum_list (map (\<lambda>x. x\<^sup>2) (yerr ! i))) / real N)
                         [0..<p] error_term;
          error_term = error_term;
          error_term = 1
      in error_term)"

text \<open>The last statements of \<^verbatim>\<open>_expectedLogLike_new\<close>, where \<open>Ydiff\<close> holds
  the squared residuals: \<^verbatim>\<open>logl = -0.5 * np.sum(Ydiff) / error_term\<close>.\<close>

definition logl :: "nat \<Rightarrow> nat \<Rightarrow> mat \<Rightarrow> vec \<Rightarrow> vec \<Rightarrow> real" where
  "logl p N yerr jitters Ydiff = - (1 / 2) * sum_list Ydiff / error_term_block p N yerr jitters"

text \<open>The combination of jitters and measurement errors that the first three statements
  compute, to compare with what the block returns.\<close>

definition noise_combination :: "nat \<Rightarrow> nat \<Rightarrow> mat \<Rightarrow> vec \<Rightarrow> real" where
  "noise_combination p N yerr jitters =
     sqrt (sum_list (map (\<lambda>x. x\<^sup>2) jitters)) / real p
     + (\<Sum>i<p. sqrt (sum_list (map (\<lambda>x. x\<^sup>2) (yerr ! i))) / real N)"


section \<open>Reconstructing the signal: \<^verbatim>\<open>_mean\<close> and \<^verbatim>\<open>get_y\<close>\<close>

text \<open>
  \<^verbatim>\<open>m[lo:hi] = v\<close> on a one-dimensional array: the slice is clipped to the array
  and \<open>v\<close> must have its length, or length 1.
\<close>

definition assign_slice :: "vec \<Rightarrow> nat \<Rightarrow> nat \<Rightarrow> vec \<Rightarrow> error + vec" where
  "assign_slice m lo hi v =
     (let n = min hi (length m) - min lo (length m)
      in if length v = n \<or> length v = 1
         then Inr (map (\<lambda>a. if lo \<le> a \<and> a < hi
                             then v ! (if length v = 1 then 0 else a - lo) else m ! a)
                       [0..<length m])
         else Inl ValueError)"

text \<open>\<^verbatim>\<open>_mean(means, time)\<close> with a time array given.\<close>

definition mean :: "('z inference_scheme) \<Rightarrow> meanfun list \<Rightarrow> vec \<Rightarrow> error + vec" where
  "mean self means time =
     (let N = length time;
          tt = concat (replicate (self_p self) time);
          m = map (\<lambda>x. 0) tt
      in for_loop
           (\<lambda>(i, meanfun) m.
              case meanfun of
                None \<Rightarrow> Inr m
              | Some f \<Rightarrow>
                 (case f time of
                    Inl e \<Rightarrow> Inl e
                  | Inr v \<Rightarrow> assign_slice m (i * N) ((i + 1) * N) v))
           (zip [0..<length means] means) m)"

text \<open>
  \<^verbatim>\<open>np.einsum('ij...,jk...->ik...', w, n)\<close> on two three-dimensional arrays:
  the sum over \<open>j\<close> of \<open>w[i, j, t] \<cdot> n[j, k, t]\<close>. The axes \<open>j\<close> of the two
  operands, and their last axes, are broadcast against each other.
\<close>

definition shape3 :: "tensor3 \<Rightarrow> nat \<times> nat \<times> nat" where
  "shape3 a = (length a,
               if a = [] then 0 else length (hd a),
               if a = [] \<or> hd a = [] then 0 else length (hd (hd a)))"

definition einsum_ij_jk :: "tensor3 \<Rightarrow> tensor3 \<Rightarrow> error + tensor3" where
  "einsum_ij_jk w n =
     (case (shape3 w, shape3 n) of
        ((I, J1, T1), (J2, K, T2)) \<Rightarrow>
          (case (bdim J1 J2, bdim T1 T2) of
             (Some J, Some T) \<Rightarrow>
               Inr (map (\<lambda>i. map (\<lambda>k. map (\<lambda>t.
                      \<Sum>j<J. w ! i ! (if J1 = 1 then 0 else j) ! (if T1 = 1 then 0 else t)
                             * n ! (if J2 = 1 then 0 else j) ! k ! (if T2 = 1 then 0 else t))
                    [0..<T]) [0..<K]) [0..<I])
           | _ \<Rightarrow> Inl ValueError))"

text \<open>
  \<^verbatim>\<open>get_y(n, w, time, means)\<close>, the same in both engines. \<open>means\<close> is
  \<^verbatim>\<open>None\<close>, the default, or a list; \<^verbatim>\<open>if means\<close> is false for
  \<^verbatim>\<open>None\<close> and for the empty list. The result is the array \<open>time\<close> itself, or
  the two-dimensional sum.
\<close>

definition get_y ::
  "('z inference_scheme) \<Rightarrow> tensor3 \<Rightarrow> tensor3 \<Rightarrow> vec \<Rightarrow> meanfun list option
     \<Rightarrow> error + ndarray" where
  "get_y self n w time means =
     (case einsum_ij_jk w n of
        Inl e \<Rightarrow> Inl e
      | Inr wn \<Rightarrow>
         (case reshape_rows (concat (concat wn)) (self_p self) (length time) of
            Inl e \<Rightarrow> Inl e
          | Inr y \<Rightarrow>
             if means \<noteq> None \<and> means \<noteq> Some []
             then (case mean self (the means) time of
                     Inl e \<Rightarrow> Inl e
                   | Inr m \<Rightarrow>
                      (case np_add y [m] of
                         Inl e \<Rightarrow> Inl e
                       | Inr y \<Rightarrow> Inr (Arr2 y)))
             else Inr (Arr1 time)))"

definition has_shape3 :: "tensor3 \<Rightarrow> nat \<Rightarrow> nat \<Rightarrow> nat \<Rightarrow> bool" where
  "has_shape3 a I J T = (length a = I \<and> list_all (\<lambda>m. has_shape m J T) a)"


section \<open>The mixture loop: \<^verbatim>\<open>EvidenceLowerBound\<close> of \<^verbatim>\<open>npvi.py\<close>\<close>

text \<open>
  Inside the loop the arguments of \<^verbatim>\<open>_expectedLogJoint\<close> and
  \<^verbatim>\<open>_entropy\<close> never change (\<open>muF\<close>, \<open>muW\<close> and \<open>sigma\<close> are not
  assigned again), so each of the two calls has one outcome, a value or an exception:
  the parameters \<open>expectedLogJoint\<close> and \<open>entropy\<close>. \<^verbatim>\<open>scipy.optimize.minimize\<close>
  is the parameter \<open>minimize\<close>, called on the number \<open>ELBO\<close>. The loop never
  assigns \<^verbatim>\<open>iterNumber\<close>, so it may run forever: the result is an option, and
  \<open>None\<close> is not returning. After the loop the method returns
  \<^verbatim>\<open>ExpLogJoint\<close>, which is unbound when the loop body never ran.
\<close>

partial_function (option) EvidenceLowerBound_npvi_loop ::
  "(error + real) \<Rightarrow> (error + real) \<Rightarrow> (real \<Rightarrow> error + unit) \<Rightarrow> int \<Rightarrow> int
     \<Rightarrow> real option \<Rightarrow> (error + real) option" where
  "EvidenceLowerBound_npvi_loop expectedLogJoint entropy minimize iterations iterNumber
       ExpLogJoint =
     (if iterNumber < iterations then
        (case expectedLogJoint of
           Inl e \<Rightarrow> Some (Inl e)
         | Inr elj \<Rightarrow>
            (case entropy of
               Inl e \<Rightarrow> Some (Inl e)
             | Inr ent \<Rightarrow>
                (case minimize (elj + ent) of
                   Inl e \<Rightarrow> Some (Inl e)
                 | Inr res \<Rightarrow>
                    (case expectedLogJoint of
                       Inl e \<Rightarrow> Some (Inl e)
                     | Inr ExpLogJoint \<Rightarrow>
                        (case entropy of
                           Inl e \<Rightarrow> Some (Inl e)
                         | Inr Entropy \<Rightarrow>
                            EvidenceLowerBound_npvi_loop expectedLogJoint entropy minimize
                              iterations iterNumber (Some ExpLogJoint))))))
      else (case ExpLogJoint of
              None \<Rightarrow> Some (Inl UnboundLocalError)
            | Some ExpLogJoint \<Rightarrow> Some (Inr ExpLogJoint)))"

definition EvidenceLowerBound_npvi ::
  "(error + real) \<Rightarrow> (error + real) \<Rightarrow> (real \<Rightarrow> error + unit) \<Rightarrow> int
     \<Rightarrow> (error + real) option" where
  "EvidenceLowerBound_npvi expectedLogJoint entropy minimize iterations =
     EvidenceLowerBound_npvi_loop expectedLogJoint entropy minimize iterations 0 None"


section \<open>The mean-field loop: \<^verbatim>\<open>EvidenceLowerBound\<close> of \<^verbatim>\<open>mfi_old.py\<close>\<close>

text \<open>
  The stopping test of the loop compares a rounded difference with \<^verbatim>\<open>1e-10\<close> and
  with zero, so its outcome can hinge on the rounding of the floats: the mean of ten equal
  floats need not be that float. The numbers of the loop are therefore of any type
  \<open>'a\<close>, and the arithmetic the loop uses on them is a parameter: addition,
  subtraction, \<^verbatim>\<open>np.abs\<close>, \<^verbatim>\<open>np.mean\<close>, \<open><\<close>, zero and the float
  \<^verbatim>\<open>1e-10\<close>.
\<close>

record 'a arithmetic =
  fl_add :: "'a \<Rightarrow> 'a \<Rightarrow> 'a"
  fl_sub :: "'a \<Rightarrow> 'a \<Rightarrow> 'a"
  fl_abs :: "'a \<Rightarrow> 'a"
  fl_mean :: "'a list \<Rightarrow> 'a"
  fl_less :: "'a \<Rightarrow> 'a \<Rightarrow> bool"
  fl_zero :: 'a
  fl_1e_10 :: 'a

text \<open>
  The variational parameters the loop carries from one iteration to the next, and what one
  iteration computes before it sums the bound: the updated parameters
  (\<^verbatim>\<open>_updateSigmaMu_new\<close> and the reshapes after it) and the three terms
  \<^verbatim>\<open>_entropy\<close>, \<^verbatim>\<open>_expectedLogPrior\<close> and
  \<^verbatim>\<open>_expectedLogLike_new\<close>. These statements invert and factorise matrices with
  scipy; they are the parameter \<open>body\<close> of the loop, which returns the iteration or
  raises. The initial parameters are drawn by numpy's random generator and are arguments.
  \<^verbatim>\<open>prints\<close> and \<^verbatim>\<open>plots\<close> have their default \<^verbatim>\<open>False\<close>.
  Before it returns the method prints \<^verbatim>\<open>' it took N iterations'\<close>: the result
  is that \<open>N\<close> and the returned triple.
\<close>

record variational =
  muF :: tensor3
  varF :: tensor3
  muW :: tensor3
  varW :: tensor3

record 'a iteration =
  updated :: variational
  Entropy :: 'a
  ExpLogPrior :: 'a
  ExpLogLike :: 'a

function EvidenceLowerBound_loop ::
  "'a arithmetic \<Rightarrow> (variational \<Rightarrow> error + 'a iteration) \<Rightarrow> int \<Rightarrow> int \<Rightarrow> 'a list
     \<Rightarrow> variational \<Rightarrow> 'a option \<Rightarrow> error + int \<times> 'a \<times> tensor3 \<times> tensor3" where
  "EvidenceLowerBound_loop ar body iterations iterNumber ELB v sum_ELB =
     (if iterNumber < iterations then
        (case body v of
           Inl e \<Rightarrow> Inl e
         | Inr it \<Rightarrow>
            (let sum_ELB = fl_add ar (fl_add ar (ExpLogLike it) (ExpLogPrior it)) (Entropy it);
                 ELB = ELB @ [sum_ELB];
                 criteria = fl_abs ar (fl_sub ar (fl_mean ar (drop (length ELB - 10) ELB))
                                         sum_ELB)
             in if fl_less ar criteria (fl_1e_10 ar) \<and> criteria \<noteq> fl_zero ar
                then Inr (iterNumber, sum_ELB, muF (updated it), muW (updated it))
                else EvidenceLowerBound_loop ar body iterations (iterNumber + 1) ELB
                       (updated it) (Some sum_ELB)))
      else (case sum_ELB of
              None \<Rightarrow> Inl UnboundLocalError
            | Some sum_ELB \<Rightarrow> Inr (iterNumber, sum_ELB, muF v, muW v)))"
  by pat_completeness auto
termination
  by (relation "measure (\<lambda>(ar, body, iterations, iterNumber, ELB, v, sum_ELB).
                           nat (iterations - iterNumber))") auto

declare EvidenceLowerBound_loop.simps [simp del]

definition EvidenceLowerBound ::
  "'a arithmetic \<Rightarrow> (variational \<Rightarrow> error + 'a iteration) \<Rightarrow> int \<Rightarrow> variational
     \<Rightarrow> error + int \<times> 'a \<times> tensor3 \<times> tensor3" where
  "EvidenceLowerBound ar body iterations v0 =
     EvidenceLowerBound_loop ar body iterations 0 [fl_zero ar] v0 None"

text \<open>
  To state what the loop returns when no iteration raises. For a body \<open>f\<close>:
  the parameters after \<open>k\<close> iterations; the bound that iteration \<open>k\<close> (counted from
  0, as \<^verbatim>\<open>iterNumber\<close>) computes; the ten numbers its stopping test averages,
  which are the placeholder \<open>0\<close> the list \<^verbatim>\<open>ELB\<close> starts with and the bounds of
  the iterations \<open>0, \<dots>, k\<close> as long as these are at most ten numbers (\<open>k \<le> 8\<close>),
  and the bounds of the iterations \<open>k - 9, \<dots>, k\<close> from then on; and the test itself.
\<close>

primrec params_after :: "(variational \<Rightarrow> 'a iteration) \<Rightarrow> variational \<Rightarrow> nat \<Rightarrow> variational" where
  "params_after f v0 0 = v0"
| "params_after f v0 (Suc k) = updated (f (params_after f v0 k))"

definition elbo_at ::
  "'a arithmetic \<Rightarrow> (variational \<Rightarrow> 'a iteration) \<Rightarrow> variational \<Rightarrow> nat \<Rightarrow> 'a" where
  "elbo_at ar f v0 k =
     fl_add ar (fl_add ar (ExpLogLike (f (params_after f v0 k)))
                          (ExpLogPrior (f (params_after f v0 k))))
               (Entropy (f (params_after f v0 k)))"

definition last_ten ::
  "'a arithmetic \<Rightarrow> (variational \<Rightarrow> 'a iteration) \<Rightarrow> variational \<Rightarrow> nat \<Rightarrow> 'a list" where
  "last_ten ar f v0 k =
     (if k \<le> 8 then fl_zero ar # map (elbo_at ar f v0) [0..<Suc k]
      else map (elbo_at ar f v0) [k - 9..<Suc k])"

definition converged_at ::
  "'a arithmetic \<Rightarrow> (variational \<Rightarrow> 'a iteration) \<Rightarrow> variational \<Rightarrow> nat \<Rightarrow> bool" where
  "converged_at ar f v0 k =
     (fl_less ar (fl_abs ar (fl_sub ar (fl_mean ar (last_ten ar f v0 k)) (elbo_at ar f v0 k)))
                 (fl_1e_10 ar)
      \<and> fl_abs ar (fl_sub ar (fl_mean ar (last_ten ar f v0 k)) (elbo_at ar f v0 k))
          \<noteq> fl_zero ar)"

text \<open>
  Two arithmetics on the reals, to run the loop on: the exact one, and one whose mean is
  off by \<open>d\<close>, as a rounded mean is.
\<close>

definition mean_off_by :: "real \<Rightarrow> real arithmetic" where
  "mean_off_by d =
     \<lparr>fl_add = (+), fl_sub = (-), fl_abs = abs, fl_mean = (\<lambda>xs. np_mean xs + d),
      fl_less = (<), fl_zero = 0, fl_1e_10 = 1 / 10 ^ 10\<rparr>"

definition exact_arithmetic :: "real arithmetic" where
  "exact_arithmetic = mean_off_by 0"

text \<open>The list \<^verbatim>\<open>ELB\<close> and the variable \<^verbatim>\<open>sum_ELB\<close> when iteration
  \<open>k\<close> starts.\<close>

definition ELB_before ::
  "'a arithmetic \<Rightarrow> (variational \<Rightarrow> 'a iteration) \<Rightarrow> variational \<Rightarrow> nat \<Rightarrow> 'a list" where
  "ELB_before ar f v0 k = fl_zero ar # map (elbo_at ar f v0) [0..<k]"

definition bound_before ::
  "'a arithmetic \<Rightarrow> (variational \<Rightarrow> 'a iteration) \<Rightarrow> variational \<Rightarrow> nat \<Rightarrow> 'a option" where
  "bound_before ar f v0 k = (if k = 0 then None else Some (elbo_at ar f v0 (k - 1)))"


section \<open>Proofs: stable Cholesky factorisation\<close>

lemma bdim_same: "bdim a a = Some a"
  by (simp add: bdim_def)

lemma ncols_shape: "has_shape A h w \<Longrightarrow> 0 < h \<Longrightarrow> ncols A = w"
  by (cases A) (auto simp: has_shape_def ncols_def)

lemma length_np_identity [simp]: "length (np_identity n) = n"
  by (simp add: np_identity_def)

lemma ncols_np_scale_identity: "ncols (np_scale g (np_identity n)) = n"
  by (cases n) (simp_all add: ncols_def np_scale_def np_identity_def hd_map upt_conv_Cons del: upt_Suc)

lemma nth_scale_identity:
  "i < n \<Longrightarrow> j < n \<Longrightarrow> np_scale g (np_identity n) ! i ! j = (if i = j then g else 0)"
  by (simp add: np_scale_def np_identity_def)

lemma length_np_scale [simp]: "length (np_scale g A) = length A"
  by (simp add: np_scale_def)

lemma add_nugget_square:
  assumes "has_shape M (length M) (length M)" and "M \<noteq> []"
  shows "add_nugget M g = Inr (regularised M g)"
proof -
  let ?n = "length M"
  let ?I = "np_scale g (np_identity ?n)"
  have n: "0 < ?n" using assms by simp
  have c: "ncols M = ?n" using ncols_shape [OF assms(1) n] .
  have cI: "ncols ?I = ?n" by (rule ncols_np_scale_identity)
  have e: "bget M i j + bget ?I i j = M ! i ! j + (if i = j then g else 0)"
    if "i < ?n" "j < ?n" for i j
  proof -
    have "bget M i j = M ! i ! j" using that c by (auto simp: bget_def)
    moreover have "bget ?I i j = ?I ! i ! j" using that cI by (auto simp: bget_def)
    ultimately show ?thesis using that by (simp add: nth_scale_identity)
  qed
  have "np_add M ?I = Inr (map (\<lambda>i. map (\<lambda>j. bget M i j + bget ?I i j) [0..<?n]) [0..<?n])"
    by (simp add: np_add_def c cI bdim_same)
  also have "map (\<lambda>i. map (\<lambda>j. bget M i j + bget ?I i j) [0..<?n]) [0..<?n] = regularised M g"
    unfolding regularised_def by (intro map_cong refl) (simp add: e)
  finally show ?thesis by (simp add: add_nugget_def)
qed

lemma loop_all_fail:
  assumes sq: "has_shape M (length M) (length M)" "M \<noteq> []"
  shows "(\<And>k. n + k < maximum \<Longrightarrow> cholesky (regularised M (g * 10 ^ k)) = Inl LinAlgError)
    \<Longrightarrow> cholNugget_loop cholesky M maximum n g out
       = (out @ map (\<lambda>k. Retry (n + k + 1) (g * 10 ^ k)) [0..<maximum - n], Inl LinAlgError)"
proof (induction "maximum - n" arbitrary: n g out)
  case 0
  then show ?case by (subst cholNugget_loop.simps) simp
next
  case (Suc d)
  have lt: "n < maximum" using Suc.hyps(2) by simp
  have d: "d = maximum - (n + 1)" using Suc.hyps(2) by simp
  have f0: "cholesky (regularised M g) = Inl LinAlgError"
    using Suc.prems [of 0] lt by simp
  have rest: "cholesky (regularised M (g * 10 * 10 ^ k)) = Inl LinAlgError"
    if "n + 1 + k < maximum" for k
    using Suc.prems [of "Suc k"] that by (simp add: mult.assoc)
  have ih: "cholNugget_loop cholesky M maximum (n + 1) (g * 10) (out @ [Retry (n + 1) g])
       = ((out @ [Retry (n + 1) g]) @ map (\<lambda>k. Retry (n + 1 + k + 1) (g * 10 * 10 ^ k)) [0..<maximum - (n + 1)], Inl LinAlgError)"
    by (rule Suc.hyps(1) [OF d rest])
  have m: "[0..<maximum - n] = 0 # map Suc [0..<maximum - (n + 1)]"
    using lt by (metis Suc.hyps(2) d map_Suc_upt upt_conv_Cons zero_less_Suc)
  show ?case
    apply (subst cholNugget_loop.simps)
    apply (simp only: lt if_True add_nugget_square [OF sq] sum.case f0 ih m)
    apply (simp add: mult.assoc comp_def)
    done
qed

lemma loop_success:
  assumes sq: "has_shape M (length M) (length M)" "M \<noteq> []"
  shows "n + k < maximum
    \<Longrightarrow> (\<And>i. i < k \<Longrightarrow> cholesky (regularised M (g * 10 ^ i)) = Inl LinAlgError)
    \<Longrightarrow> cholesky (regularised M (g * 10 ^ k)) = Inr U
    \<Longrightarrow> cholNugget_loop cholesky M maximum n g out
       = (out @ map (\<lambda>i. Retry (n + i + 1) (g * 10 ^ i)) [0..<k + 1], Inr (np_T U, g * 10 ^ k))"
proof (induction k arbitrary: n g out)
  case 0
  then show ?case
    by (subst cholNugget_loop.simps) (simp add: add_nugget_square [OF sq])
next
  case (Suc k)
  have lt: "n < maximum" using Suc.prems(1) by simp
  have f0: "cholesky (regularised M g) = Inl LinAlgError"
    using Suc.prems(2) [of 0] by simp
  have ih: "cholNugget_loop cholesky M maximum (n + 1) (g * 10) (out @ [Retry (n + 1) g])
       = ((out @ [Retry (n + 1) g]) @ map (\<lambda>i. Retry (n + 1 + i + 1) (g * 10 * 10 ^ i)) [0..<k + 1],
          Inr (np_T U, g * 10 * 10 ^ k))"
  proof (rule Suc.IH)
    show "n + 1 + k < maximum" using Suc.prems(1) by simp
    show "cholesky (regularised M (g * 10 * 10 ^ i)) = Inl LinAlgError" if "i < k" for i
      using Suc.prems(2) [of "Suc i"] that by (simp add: mult.assoc)
    show "cholesky (regularised M (g * 10 * 10 ^ k)) = Inr U"
      using Suc.prems(3) by (simp add: mult.assoc)
  qed
  have m: "[0..<Suc k + 1] = 0 # map Suc [0..<k + 1]"
    by (metis Suc_eq_plus1 map_Suc_upt upt_conv_Cons zero_less_Suc)
  show ?case
    apply (subst cholNugget_loop.simps)
    apply (simp only: lt if_True add_nugget_square [OF sq] sum.case f0 ih m)
    apply (simp add: mult.assoc comp_def)
    done
qed


lemma spd_diag_pos:
  assumes "is_spd M" and "i < length M"
  shows "0 < M ! i ! i"
proof -
  let ?n = "length M"
  let ?x = "map (\<lambda>k. if k = i then 1 else 0 :: real) [0..<?n]"
  have "0 < quad_form M ?x"
  proof -
    have "?x ! i \<noteq> 0" using assms(2) by simp
    then have "length ?x = ?n \<and> (\<exists>k<?n. ?x ! k \<noteq> 0)" using assms(2) by auto
    then show ?thesis using assms(1) unfolding is_spd_def by blast
  qed
  moreover have "quad_form M ?x = M ! i ! i"
  proof -
    have inner: "(\<Sum>b<?n. c * M ! a ! b * (if b = i then 1 else 0)) = c * M ! a ! i" for a c
    proof -
      have "(\<Sum>b<?n. c * M ! a ! b * (if b = i then 1 else 0))
          = (\<Sum>b\<in>{..<?n}. if b = i then c * M ! a ! b else 0)"
        by (intro sum.cong refl) simp
      also have "\<dots> = c * M ! a ! i"
        using assms(2) by (simp only: sum.delta finite_lessThan lessThan_iff if_True)
      finally show ?thesis .
    qed
    have "quad_form M ?x
        = (\<Sum>a<?n. \<Sum>b<?n. (if a = i then 1 else 0) * M ! a ! b * (if b = i then 1 else 0))"
      unfolding quad_form_def by (intro sum.cong refl) simp
    also have "\<dots> = (\<Sum>a\<in>{..<?n}. if a = i then M ! a ! i else 0)"
      by (simp only: inner) (intro sum.cong refl, simp)
    also have "\<dots> = M ! i ! i"
      using assms(2) by (simp only: sum.delta finite_lessThan lessThan_iff if_True)
    finally show ?thesis .
  qed
  ultimately show ?thesis by simp
qed

lemma abs_mean_nonneg:
  assumes "\<forall>x\<in>set v. 0 \<le> (x::real)"
  shows "\<bar>np_mean v\<bar> = np_mean (map abs v)"
proof -
  have "map abs v = v" using assms by (induction v) auto
  moreover have "0 \<le> sum_list v" using assms by (induction v) auto
  ultimately show ?thesis by (simp add: np_mean_def)
qed

lemma baseline_nonneg_diag:
  assumes "\<forall>x\<in>set (np_diag M). 0 \<le> x"
  shows "baseline_nugget M = mean_abs_diag M * (1 / 100000)"
  using assms by (simp add: baseline_nugget_def mean_abs_diag_def abs_mean_nonneg)

lemma spd_baseline:
  assumes "is_spd M"
  shows "baseline_nugget M = mean_abs_diag M * (1 / 100000)"
proof -
  have n: "0 < length M" and sh: "has_shape M (length M) (length M)"
    using assms by (auto simp: is_spd_def)
  have c: "ncols M = length M" using ncols_shape [OF sh n] .
  have "\<forall>x\<in>set (np_diag M). 0 < x"
    using spd_diag_pos [OF assms] by (auto simp: np_diag_def c)
  then have "\<forall>x\<in>set (np_diag M). 0 \<le> x" by (simp add: less_imp_le)
  then show ?thesis by (rule baseline_nonneg_diag)
qed

lemma np_T_shape:
  assumes "has_shape A h w"
  shows "has_shape (np_T A) (if h = 0 then 0 else w) h"
proof (cases "h = 0")
  case True
  then show ?thesis using assms by (simp add: has_shape_def np_T_def ncols_def)
next
  case False
  then have "ncols A = w" using ncols_shape [OF assms] by simp
  then show ?thesis using assms False
    by (simp add: has_shape_def np_T_def list_all_iff)
qed

lemma np_T_nth:
  assumes "has_shape A h w" and "i < h" and "j < w"
  shows "np_T A ! j ! i = A ! i ! j"
proof -
  have "ncols A = w" using ncols_shape [OF assms(1)] assms(2) by simp
  then show ?thesis using assms by (simp add: np_T_def has_shape_def)
qed

lemma np_T_np_T:
  assumes "has_shape A h w" and "0 < h" and "0 < w"
  shows "np_T (np_T A) = A"
proof -
  have c: "ncols A = w" using ncols_shape [OF assms(1,2)] .
  have sT: "has_shape (np_T A) w h" using np_T_shape [OF assms(1)] assms(2) by simp
  have cT: "ncols (np_T A) = h" using ncols_shape [OF sT assms(3)] .
  have lT: "length (np_T A) = w" using sT by (simp add: has_shape_def)
  have lA: "length A = h" and rows: "\<And>i. i < h \<Longrightarrow> length (A ! i) = w"
    using assms(1) by (auto simp: has_shape_def list_all_length)
  show ?thesis
  proof (rule nth_equalityI)
    show "length (np_T (np_T A)) = length A"
      by (simp add: np_T_def [of "np_T A"] cT lA)
  next
    fix i assume "i < length (np_T (np_T A))"
    then have i: "i < h" by (simp add: np_T_def [of "np_T A"] cT)
    have "np_T (np_T A) ! i = map (\<lambda>j. np_T A ! j ! i) [0..<w]"
      using i by (simp add: np_T_def [of "np_T A"] cT lT)
    also have "\<dots> = map (\<lambda>j. A ! i ! j) [0..<w]"
      by (intro map_cong refl) (simp add: np_T_nth [OF assms(1) i])
    also have "\<dots> = A ! i"
      using rows [OF i] by (metis map_nth)
    finally show "np_T (np_T A) ! i = A ! i" .
  qed
qed

lemma lower_np_T:
  assumes "has_shape U n n" and "upper_triangular U"
  shows "lower_triangular (np_T U)"
proof (cases "n = 0")
  case True
  then show ?thesis using assms(1)
    by (simp add: lower_triangular_def np_T_def has_shape_def ncols_def)
next
  case False
  have sT: "has_shape (np_T U) n n" using np_T_shape [OF assms(1)] False by simp
  have lU: "length U = n" using assms(1) by (simp add: has_shape_def)
  show ?thesis
    unfolding lower_triangular_def
  proof (intro allI impI)
    fix i j
    assume i: "i < length (np_T U)" and j: "j < length (np_T U ! i)" and ij: "i < j"
    have i': "i < n" using i sT by (simp add: has_shape_def)
    have j': "j < n" using j i sT by (simp add: has_shape_def list_all_length)
    have "np_T U ! i ! j = U ! j ! i" by (rule np_T_nth [OF assms(1) j' i'])
    also have "\<dots> = 0" using assms(2) j' ij lU by (simp add: upper_triangular_def)
    finally show "np_T U ! i ! j = 0" .
  qed
qed

text \<open>
  Claim C2. For a symmetric positive-definite matrix \<open>M\<close> on which the library
  factorisation succeeds with the upper factor \<open>U\<close> it documents (triangular, of
  \<open>M\<close>'s shape, \<open>U\<^sup>T U = M\<close>), \<^verbatim>\<open>_cholNugget\<close> returns at the
  direct attempt: it prints nothing (no banner, no retry), the factor it returns is
  \<open>L = U\<^sup>T\<close>, lower triangular with \<open>L L\<^sup>T = M\<close> (nothing was added to the
  diagonal of \<open>M\<close>), and the nugget it returns is the baseline, the mean of the absolute
  values of the diagonal of \<open>M\<close> times \<open>10\<^sup>-\<^sup>5\<close>. Floats are read as reals, so
  "within floating tolerance" is exact equality here.
\<close>

theorem cholNugget_spd:
  assumes "is_spd M"
    and "cholesky M = Inr U"
    and "has_shape U (length M) (length M)"
    and "upper_triangular U"
    and "matmul (np_T U) U = M"
  shows "cholNugget cholesky M maximum = ([], Inr (np_T U, mean_abs_diag M * (1 / 100000)))
       \<and> lower_triangular (np_T U)
       \<and> matmul (np_T U) (np_T (np_T U)) = M"
proof -
  have n: "0 < length M" using assms(1) by (simp add: is_spd_def)
  have "cholNugget cholesky M maximum = ([], Inr (np_T U, baseline_nugget M))"
    by (simp add: cholNugget_def assms(2))
  moreover have "lower_triangular (np_T U)"
    by (rule lower_np_T [OF assms(3,4)])
  moreover have "np_T (np_T U) = U"
    by (rule np_T_np_T [OF assms(3) n n])
  ultimately show ?thesis
    by (simp add: spd_baseline [OF assms(1)] assms(5))
qed

lemma spd_example: "is_spd [[4, 2], [2, 5]]"
proof -
  have q: "0 < quad_form [[4, 2], [2, 5]] x"
    if "length x = 2" and "\<exists>i<2. x ! i \<noteq> 0" for x :: vec
  proof -
    have "x = [x ! 0, x ! 1]"
      using that(1) by (intro nth_equalityI) (auto simp: less_Suc_eq numeral_2_eq_2)
    then obtain a b where x: "x = [a, b]" by blast
    have ab: "a \<noteq> 0 \<or> b \<noteq> 0"
      using that(2) x by (auto simp: less_Suc_eq numeral_2_eq_2)
    have "quad_form [[4, 2], [2, 5]] x = (2 * a + b)\<^sup>2 + 4 * b\<^sup>2"
      by (simp add: quad_form_def x numeral_2_eq_2 power2_eq_square algebra_simps)
    moreover have "0 < (2 * a + b)\<^sup>2 + 4 * b\<^sup>2"
    proof (cases "b = 0")
      case True
      then show ?thesis using ab by simp
    next
      case False
      then have "0 < 4 * b\<^sup>2" by simp
      moreover have "0 \<le> (2 * a + b)\<^sup>2" by simp
      ultimately show ?thesis by linarith
    qed
    ultimately show ?thesis by simp
  qed
  show ?thesis
    unfolding is_spd_def
    by (auto simp: has_shape_def q less_Suc_eq numeral_2_eq_2)
qed

theorem cholNugget_spd_witness:
  "cholNugget (\<lambda>A. Inr [[2, 1], [0, 2]]) [[4, 2], [2, 5]] 10
     = ([], Inr ([[2, 0], [1, 2]], 9 / 200000))
   \<and> lower_triangular [[2, 0], [1, 2]]
   \<and> matmul [[2, 0], [1, 2]] [[2, 1], [0, 2]] = [[4, 2], [2, 5]]"
proof -
  have u: "upper_triangular [[2, 1], [0, 2]]"
    by (simp add: upper_triangular_def less_Suc_eq numeral_2_eq_2)
  have s: "has_shape [[2, 1], [0, 2]] (length [[4, 2], [2, 5 :: real]]) (length [[4, 2], [2, 5 :: real]])"
    by (simp add: has_shape_def)
  have t: "np_T [[2, 1], [0, 2]] = [[2, 0], [1, 2]]"
    by (simp add: np_T_def ncols_def numeral_2_eq_2)
  have m: "matmul (np_T [[2, 1], [0, 2]]) [[2, 1], [0, 2]] = [[4, 2], [2, 5]]"
    by (simp add: t matmul_def ncols_def numeral_2_eq_2)
  have d: "mean_abs_diag [[4, 2], [2, 5]] = 9 / 2"
    by (simp add: mean_abs_diag_def np_diag_def np_mean_def ncols_def numeral_2_eq_2)
  have t2: "np_T [[2, 0], [1, 2]] = [[2, 1], [0, 2]]"
    by (simp add: np_T_def ncols_def numeral_2_eq_2)
  show ?thesis
    using cholNugget_spd [OF spd_example refl s u m, of 10]
    by (simp add: t t2 d)
qed


lemma loop_lines:
  "length (fst (cholNugget_loop cholesky M maximum n g out)) \<le> length out + (maximum - n)"
proof (induction cholesky M maximum n g out rule: cholNugget_loop.induct)
  case (1 cholesky matrix maximum n nugget out)
  show ?case
  proof (cases "n < maximum")
    case False
    then show ?thesis by (subst cholNugget_loop.simps) simp
  next
    case lt: True
    show ?thesis
    proof (cases "add_nugget matrix nugget")
      case (Inl e)
      then show ?thesis using lt by (subst cholNugget_loop.simps) simp
    next
      case A: (Inr A)
      show ?thesis
      proof (cases "cholesky A")
        case (Inr U)
        then show ?thesis using lt A by (subst cholNugget_loop.simps) simp
      next
        case e: (Inl e)
        show ?thesis
        proof (cases "e = LinAlgError")
          case False
          then show ?thesis using lt A e by (subst cholNugget_loop.simps) simp
        next
          case True
          have "length (fst (cholNugget_loop cholesky matrix maximum (n + 1) (nugget * 10)
                   (out @ [Retry (n + 1) nugget])))
                \<le> length (out @ [Retry (n + 1) nugget]) + (maximum - (n + 1))"
            by (rule "1.IH" [OF lt A e True])
          then show ?thesis using lt A e True by (subst cholNugget_loop.simps) simp
        qed
      qed
    qed
  qed
qed

lemma cholNugget_lines: "length (fst (cholNugget cholesky M maximum)) \<le> Suc maximum"
proof (cases "cholesky M")
  case (Inr U)
  then show ?thesis by (simp add: cholNugget_def)
next
  case (Inl e)
  show ?thesis
  proof (cases "e = LinAlgError")
    case False
    then show ?thesis using Inl by (simp add: cholNugget_def)
  next
    case True
    then show ?thesis
      using Inl loop_lines [of cholesky M maximum 0 "baseline_nugget M" "[Banner]"]
      by (simp add: cholNugget_def)
  qed
qed


lemma cholNugget_start:
  assumes "cholesky M = Inl LinAlgError"
  shows "cholNugget cholesky M m = cholNugget_loop cholesky M m 0 (baseline_nugget M) [Banner]"
  by (simp add: cholNugget_def assms Let_def)

lemma cholNugget_all_fail:
  assumes "M \<noteq> []" and "has_shape M (length M) (length M)"
    and "cholesky M = Inl LinAlgError"
    and "\<forall>k<maximum. cholesky (regularised M (baseline_nugget M * 10 ^ k)) = Inl LinAlgError"
  shows "cholNugget cholesky M maximum
           = (Banner # map (\<lambda>k. Retry (k + 1) (baseline_nugget M * 10 ^ k)) [0..<maximum],
              Inl LinAlgError)"
  using loop_all_fail [OF assms(2,1), of 0 maximum cholesky "baseline_nugget M" "[Banner]"]
    assms(4)
  by (simp add: cholNugget_start [of cholesky M, OF assms(3)])

lemma cholNugget_success:
  assumes "M \<noteq> []" and "has_shape M (length M) (length M)"
    and "cholesky M = Inl LinAlgError"
    and "k < maximum"
    and "\<forall>i<k. cholesky (regularised M (baseline_nugget M * 10 ^ i)) = Inl LinAlgError"
    and "cholesky (regularised M (baseline_nugget M * 10 ^ k)) = Inr U"
  shows "cholNugget cholesky M maximum
           = (Banner # map (\<lambda>i. Retry (i + 1) (baseline_nugget M * 10 ^ i)) [0..<k + 1],
              Inr (np_T U, baseline_nugget M * 10 ^ k))"
  using loop_success [OF assms(2,1), of 0 k maximum cholesky "baseline_nugget M" U "[Banner]"]
    assms(4,5,6)
  by (simp add: cholNugget_start [of cholesky M, OF assms(3)])

lemma baseline_explicit:
  assumes "M \<noteq> []" and "has_shape M (length M) (length M)"
  shows "baseline_nugget M = \<bar>(\<Sum>i<length M. M ! i ! i) / real (length M)\<bar> * (1 / 100000)"
proof -
  have n: "0 < length M" using assms(1) by simp
  have c: "ncols M = length M" using ncols_shape [OF assms(2) n] .
  have "sum_list (map (\<lambda>i. M ! i ! i) [0..<length M]) = (\<Sum>i<length M. M ! i ! i)"
    by (simp add: interv_sum_list_conv_sum_set_nat atLeast0LessThan)
  then show ?thesis
    by (simp add: baseline_nugget_def np_mean_def np_diag_def c)
qed

text \<open>
  Claim C1, as the code has it. Let \<open>M\<close> be a square matrix whose direct factorisation
  raises \<^verbatim>\<open>LinAlgError\<close>, and let \<open>b\<close> be the absolute value of the mean of the
  diagonal of \<open>M\<close>, times \<open>10\<^sup>-\<^sup>5\<close>
  (\<^verbatim>\<open>np.abs(np.diag(matrix).mean()) * 1e-5\<close>; not the mean of the absolute values
  of the diagonal). Then \<^verbatim>\<open>_cholNugget(M, maximum)\<close> prints the banner and retries
  on \<open>M + b\<cdot>10\<^sup>k\<cdot>I\<close> for \<open>k = 0, 1, \<dots>\<close>:
  \<^item> when all \<open>maximum\<close> retries fail it raises \<^verbatim>\<open>LinAlgError\<close>, after
    exactly \<open>maximum\<close> retries with the nuggets \<open>b, 10 b, \<dots>\<close>;
  \<^item> when retry \<open>k < maximum\<close> is the first to succeed, with factor \<open>U\<close>, it
    returns \<open>(U\<^sup>T, b\<cdot>10\<^sup>k)\<close> after \<open>k + 1\<close> retries;
  \<^item> with \<open>maximum = 0\<close> it raises \<^verbatim>\<open>LinAlgError\<close> right after the banner;
  \<^item> whatever the factorisation does, it prints at most \<open>maximum\<close> retry lines after
    the banner.
\<close>

theorem cholNugget_retries:
  fixes M :: mat and b :: real
  assumes "M \<noteq> []"
    and "has_shape M (length M) (length M)"
    and "cholesky M = Inl LinAlgError"
  defines "b \<equiv> \<bar>(\<Sum>i<length M. M ! i ! i) / real (length M)\<bar> * (1 / 100000)"
  shows "((\<forall>k<maximum. cholesky (regularised M (b * 10 ^ k)) = Inl LinAlgError)
          \<longrightarrow> cholNugget cholesky M maximum
              = (Banner # map (\<lambda>k. Retry (k + 1) (b * 10 ^ k)) [0..<maximum],
                 Inl LinAlgError))
       \<and> (\<forall>k U. k < maximum
            \<and> (\<forall>i<k. cholesky (regularised M (b * 10 ^ i)) = Inl LinAlgError)
            \<and> cholesky (regularised M (b * 10 ^ k)) = Inr U
          \<longrightarrow> cholNugget cholesky M maximum
              = (Banner # map (\<lambda>i. Retry (i + 1) (b * 10 ^ i)) [0..<k + 1],
                 Inr (np_T U, b * 10 ^ k)))
       \<and> cholNugget cholesky M 0 = ([Banner], Inl LinAlgError)
       \<and> length (fst (cholNugget cholesky M maximum)) \<le> Suc maximum"
proof -
  have b: "baseline_nugget M = b"
    unfolding b_def by (rule baseline_explicit [OF assms(1,2)])
  have a: "cholNugget cholesky M maximum
             = (Banner # map (\<lambda>k. Retry (k + 1) (b * 10 ^ k)) [0..<maximum], Inl LinAlgError)"
    if "\<forall>k<maximum. cholesky (regularised M (b * 10 ^ k)) = Inl LinAlgError"
    using cholNugget_all_fail [of M cholesky maximum, OF assms(1,2,3)] that by (simp add: b)
  have s: "cholNugget cholesky M maximum
             = (Banner # map (\<lambda>i. Retry (i + 1) (b * 10 ^ i)) [0..<k + 1],
                Inr (np_T U, b * 10 ^ k))"
    if "k < maximum"
      and "\<forall>i<k. cholesky (regularised M (b * 10 ^ i)) = Inl LinAlgError"
      and "cholesky (regularised M (b * 10 ^ k)) = Inr U" for k U
    using cholNugget_success [of M cholesky k maximum U, OF assms(1,2,3)] that by (simp add: b)
  have c: "cholNugget cholesky M 0 = ([Banner], Inl LinAlgError)"
    by (simp add: cholNugget_start [of cholesky M, OF assms(3)] cholNugget_loop.simps)
  show ?thesis
    using a s c cholNugget_lines [of cholesky M maximum] by blast
qed

lemma sqrt_9: "sqrt 9 = 3"
  using real_sqrt_abs [of 3] by simp

lemma regularised_2x2:
  "regularised [[a, 0], [0, d]] g = [[a + g, 0], [0, d + g]]"
  by (simp add: regularised_def numeral_2_eq_2)

theorem cholNugget_retries_witness:
  "cholNugget (\<lambda>A. if 0 < A ! 1 ! 1 then Inr [[sqrt (A ! 0 ! 0), 0], [0, sqrt (A ! 1 ! 1)]]
                    else Inl LinAlgError) [[5, 0], [0, - 1]] 10
     = ([Banner, Retry 1 (2 / 100000), Retry 2 (2 / 10000), Retry 3 (2 / 1000), Retry 4 (2 / 100),
         Retry 5 (2 / 10), Retry 6 2], Inr ([[sqrt 7, 0], [0, 1]], 2))
   \<and> cholNugget (\<lambda>A. if 0 < A ! 1 ! 1 then Inr [[sqrt (A ! 0 ! 0), 0], [0, sqrt (A ! 1 ! 1)]]
                    else Inl LinAlgError) [[5, 0], [0, - 1]] 3
     = ([Banner, Retry 1 (2 / 100000), Retry 2 (2 / 10000), Retry 3 (2 / 1000)], Inl LinAlgError)
   \<and> cholNugget (\<lambda>A. if 0 < A ! 1 ! 1 then Inr [[sqrt (A ! 0 ! 0), 0], [0, sqrt (A ! 1 ! 1)]]
                    else Inl LinAlgError) [[5, 0], [0, - 1]] 0
     = ([Banner], Inl LinAlgError)"
proof -
  let ?chol = "\<lambda>A :: mat. if 0 < A ! 1 ! 1
                 then Inr [[sqrt (A ! 0 ! 0), 0], [0, sqrt (A ! 1 ! 1)]]
                 else Inl LinAlgError :: error + mat"
  let ?M = "[[5, 0], [0, - 1]] :: mat"
  let ?b = "\<bar>(\<Sum>i<length ?M. ?M ! i ! i) / real (length ?M)\<bar> * (1 / 100000)"
  have ne: "?M \<noteq> []" by simp
  have sh: "has_shape ?M (length ?M) (length ?M)" by (simp add: has_shape_def)
  have f: "?chol ?M = Inl LinAlgError" by simp
  have b: "?b = 2 / 100000" by (simp add: numeral_2_eq_2)
  have up: "[0..<6] = [0, 1, 2, 3, 4, 5::nat]" "[0..<3] = [0, 1, 2::nat]"
    by (simp_all add: upt_rec)
  have low: "?chol (regularised ?M (?b * 10 ^ i)) = Inl LinAlgError" if "i < 5" for i
  proof -
    have "i = 0 \<or> i = 1 \<or> i = 2 \<or> i = 3 \<or> i = 4" using that by arith
    then show ?thesis unfolding b regularised_2x2 by auto
  qed
  have all3: "\<forall>k<3. ?chol (regularised ?M (?b * 10 ^ k)) = Inl LinAlgError"
    using low by simp
  have all5: "\<forall>i<5. ?chol (regularised ?M (?b * 10 ^ i)) = Inl LinAlgError"
    using low by simp
  have ok5: "?chol (regularised ?M (?b * 10 ^ 5)) = Inr [[sqrt 7, 0], [0, 1]]"
    unfolding b regularised_2x2 by simp
  have t: "np_T [[sqrt 7, 0], [0, 1]] = [[sqrt 7, 0], [0, 1]]"
    by (simp add: np_T_def ncols_def numeral_2_eq_2)
  note th10 = cholNugget_retries [of ?M ?chol 10, OF ne sh f]
  note th3 = cholNugget_retries [of ?M ?chol 3, OF ne sh f]
  have w10: "cholNugget ?chol ?M 10
     = (Banner # map (\<lambda>i. Retry (i + 1) (?b * 10 ^ i)) [0..<5 + 1],
        Inr (np_T [[sqrt 7, 0], [0, 1]], ?b * 10 ^ 5))"
    by (rule th10 [THEN conjunct2, THEN conjunct1, THEN spec [where x = "5::nat"],
                   THEN spec [where x = "[[sqrt 7, 0], [0, 1]]"], THEN mp])
       (intro conjI all5 ok5, simp)
  have w3: "cholNugget ?chol ?M 3
     = (Banner # map (\<lambda>k. Retry (k + 1) (?b * 10 ^ k)) [0..<3], Inl LinAlgError)"
    by (rule th3 [THEN conjunct1, THEN mp]) (rule all3)
  have w0: "cholNugget ?chol ?M 0 = ([Banner], Inl LinAlgError)"
    by (rule th3 [THEN conjunct2, THEN conjunct2, THEN conjunct1])
  show ?thesis
    unfolding w10 w3 w0 b t by (simp add: up)
qed

text \<open>
  Claim C1 as stated fails: on the diagonal matrix with diagonal \<open>3, -1\<close> the mean of the
  absolute diagonal values times \<open>10\<^sup>-\<^sup>5\<close> is \<open>2\<cdot>10\<^sup>-\<^sup>5\<close>, but the first
  retry adds \<open>10\<^sup>-\<^sup>5\<close>, and the factorisation (here one that succeeds as soon as the
  diagonal is positive) first succeeds at the seventh retry with nugget \<open>10\<close>, where a
  start at \<open>2\<cdot>10\<^sup>-\<^sup>5\<close> would succeed at the sixth with nugget \<open>2\<close>.
\<close>

theorem cholNugget_retries_counterexample:
  "cholNugget (\<lambda>A. if 0 < A ! 1 ! 1 then Inr [[sqrt (A ! 0 ! 0), 0], [0, sqrt (A ! 1 ! 1)]]
                    else Inl LinAlgError) [[3, 0], [0, - 1]] 10
     = ([Banner, Retry 1 (1 / 100000), Retry 2 (1 / 10000), Retry 3 (1 / 1000), Retry 4 (1 / 100),
         Retry 5 (1 / 10), Retry 6 1, Retry 7 10], Inr ([[sqrt 13, 0], [0, 3]], 10))
   \<and> mean_abs_diag [[3, 0], [0, - 1]] * (1 / 100000) = 2 / 100000"
proof -
  let ?chol = "\<lambda>A :: mat. if 0 < A ! 1 ! 1
                 then Inr [[sqrt (A ! 0 ! 0), 0], [0, sqrt (A ! 1 ! 1)]]
                 else Inl LinAlgError :: error + mat"
  let ?M = "[[3, 0], [0, - 1]] :: mat"
  have ne: "?M \<noteq> []" by simp
  have sh: "has_shape ?M (length ?M) (length ?M)" by (simp add: has_shape_def)
  have f: "?chol ?M = Inl LinAlgError" by simp
  have b: "baseline_nugget ?M = 1 / 100000"
    by (simp add: baseline_nugget_def np_mean_def np_diag_def ncols_def numeral_2_eq_2)
  have up: "[0..<7] = [0, 1, 2, 3, 4, 5, 6::nat]" by (simp add: upt_rec)
  have low: "\<forall>i<6. ?chol (regularised ?M (baseline_nugget ?M * 10 ^ i)) = Inl LinAlgError"
  proof (intro allI impI)
    fix i :: nat assume "i < 6"
    then have "i = 0 \<or> i = 1 \<or> i = 2 \<or> i = 3 \<or> i = 4 \<or> i = 5" by arith
    then show "?chol (regularised ?M (baseline_nugget ?M * 10 ^ i)) = Inl LinAlgError"
      unfolding b regularised_2x2 by auto
  qed
  have ok: "?chol (regularised ?M (baseline_nugget ?M * 10 ^ 6)) = Inr [[sqrt 13, 0], [0, 3]]"
    unfolding b regularised_2x2 by (simp add: sqrt_9)
  have t: "np_T [[sqrt 13, 0], [0, 3]] = [[sqrt 13, 0], [0, 3]]"
    by (simp add: np_T_def ncols_def numeral_2_eq_2)
  have six: "(6::nat) < 10" by simp
  have run: "cholNugget ?chol ?M 10
     = (Banner # map (\<lambda>i. Retry (i + 1) (baseline_nugget ?M * 10 ^ i)) [0..<6 + 1],
        Inr (np_T [[sqrt 13, 0], [0, 3]], baseline_nugget ?M * 10 ^ 6))"
    by (rule cholNugget_success [of ?M ?chol 6 10, OF ne sh f six low ok])
  have m: "mean_abs_diag ?M * (1 / 100000) = 2 / 100000"
    by (simp add: mean_abs_diag_def np_mean_def np_diag_def ncols_def numeral_2_eq_2)
  show ?thesis
    unfolding run b t m by (simp add: up)
qed


section \<open>Proofs: kernel matrices and the block covariance matrix\<close>

lemma np_add_scaled_identity:
  assumes "has_shape K n n"
  shows "np_add K (np_scale c (np_identity n)) = Inr (regularised K c)"
proof (cases "K = []")
  case True
  then have "n = 0" using assms by (simp add: has_shape_def)
  then show ?thesis using True
    by (simp add: np_add_def np_scale_def np_identity_def ncols_def bdim_def regularised_def)
next
  case False
  have n: "length K = n" using assms by (simp add: has_shape_def)
  show ?thesis
    using add_nugget_square [of K c] assms False by (simp add: add_nugget_def n)
qed

lemma diagflat_ones:
  "np_diagflat (np_diag (np_ones_like (lag_matrix t t))) = np_identity (length t)"
proof -
  let ?O = "np_ones_like (lag_matrix t t)"
  have l: "length ?O = length t" by (simp add: np_ones_like_def lag_matrix_def)
  have c: "ncols ?O = length t"
    by (cases t) (simp_all add: ncols_def np_ones_like_def lag_matrix_def)
  have e: "?O ! i ! i = 1" if "i < length t" for i
    using that by (simp add: np_ones_like_def lag_matrix_def)
  have d: "np_diag ?O = replicate (length t) 1"
    unfolding np_diag_def l c
    by (rule nth_equalityI) (simp_all add: e)
  show ?thesis
    by (simp add: d np_diagflat_def np_identity_def cong: map_cong)
qed

lemma kernelMatrix_nonstationary:
  "kernel_class k = Linear \<or> kernel_class k = Polynomial
   \<Longrightarrow> kernelMatrix c k t = call_t k (Arr2 (map (\<lambda>x. [x]) t)) (Arr2 [t])"
  by (simp add: kernelMatrix_def)

lemma kernelMatrix_stationary:
  assumes "kernel_class k \<noteq> Linear" and "kernel_class k \<noteq> Polynomial"
    and "call_r k (lag_matrix t t) = Inr K"
    and "has_shape K (length t) (length t)"
  shows "kernelMatrix c k t = Inr (regularised K c)"
  using assms by (simp add: kernelMatrix_def diagflat_ones np_add_scaled_identity)

text \<open>
  Claim C5, as the code has it. \<^verbatim>\<open>_kernelMatrix\<close> regularises the
  matrices of the kernels that are neither \<^verbatim>\<open>Linear\<close> nor
  \<^verbatim>\<open>Polynomial\<close> only, and by a constant, not by a multiple of the base
  diagonal: for such a kernel whose evaluation \<open>K\<close> on the lags has the shape
  \<open>N \<times> N\<close>, the result is \<open>K + c\<cdot>I\<close> with \<open>c = 10\<^sup>-\<^sup>5\<close> in
  \<^verbatim>\<open>npvi.py\<close> and \<open>c = 10\<^sup>-\<^sup>6\<close> in \<^verbatim>\<open>mfi_old.py\<close>. For a
  \<^verbatim>\<open>Linear\<close> or \<^verbatim>\<open>Polynomial\<close> kernel the result is the kernel's
  evaluation on the two raw time arrays, with nothing added.
\<close>

theorem kernelMatrix_regularisation:
  "(kernel_class k = Linear \<or> kernel_class k = Polynomial
      \<longrightarrow> kernelMatrix_npvi k t = call_t k (Arr2 (map (\<lambda>x. [x]) t)) (Arr2 [t])
        \<and> kernelMatrix_mfi_old k t = call_t k (Arr2 (map (\<lambda>x. [x]) t)) (Arr2 [t]))
   \<and> (kernel_class k \<noteq> Linear \<and> kernel_class k \<noteq> Polynomial
       \<and> call_r k (lag_matrix t t) = Inr K \<and> has_shape K (length t) (length t)
      \<longrightarrow> kernelMatrix_npvi k t = Inr (regularised K (1 / 100000))
        \<and> kernelMatrix_mfi_old k t = Inr (regularised K (1 / 1000000)))"
  by (simp add: kernelMatrix_npvi_def kernelMatrix_mfi_old_def kernelMatrix_nonstationary
                kernelMatrix_stationary)

theorem kernelMatrix_regularisation_witness:
  "kernelMatrix_npvi \<lparr>kernel_class = Stationary, call_r = (\<lambda>r. Inr (map (map (\<lambda>x. 100)) r)),
       call_t = (\<lambda>a b. Inl TypeError)\<rparr> [0, 1]
     = Inr [[100 + 1 / 100000, 100], [100, 100 + 1 / 100000]]
   \<and> kernelMatrix_mfi_old \<lparr>kernel_class = Stationary, call_r = (\<lambda>r. Inr (map (map (\<lambda>x. 100)) r)),
       call_t = (\<lambda>a b. Inl TypeError)\<rparr> [0, 1]
     = Inr [[100 + 1 / 1000000, 100], [100, 100 + 1 / 1000000]]
   \<and> kernelMatrix_npvi \<lparr>kernel_class = Linear, call_r = (\<lambda>r. Inl TypeError),
       call_t = (\<lambda>a b. Inr [[0, 0], [0, 1]])\<rparr> [0, 1]
     = Inr [[0, 0], [0, 1]]
   \<and> kernelMatrix_mfi_old \<lparr>kernel_class = Linear, call_r = (\<lambda>r. Inl TypeError),
       call_t = (\<lambda>a b. Inr [[0, 0], [0, 1]])\<rparr> [0, 1]
     = Inr [[0, 0], [0, 1]]"
proof -
  let ?s = "\<lparr>kernel_class = Stationary, call_r = (\<lambda>r. Inr (map (map (\<lambda>x. 100)) r)),
       call_t = (\<lambda>a b. Inl TypeError)\<rparr>"
  let ?l = "\<lparr>kernel_class = Linear, call_r = (\<lambda>r. Inl TypeError),
       call_t = (\<lambda>a b. Inr [[0, 0], [0, 1]])\<rparr>"
  let ?K = "[[100, 100], [100, 100]] :: mat"
  have s: "kernel_class ?s \<noteq> Linear \<and> kernel_class ?s \<noteq> Polynomial
       \<and> call_r ?s (lag_matrix [0, 1] [0, 1]) = Inr ?K \<and> has_shape ?K (length [0, 1 :: real]) (length [0, 1 :: real])"
    by (simp add: lag_matrix_def has_shape_def)
  have l: "kernel_class ?l = Linear \<or> kernel_class ?l = Polynomial" by simp
  have r: "regularised ?K g = [[100 + g, 100], [100, 100 + g]]" for g
    by (simp add: regularised_def numeral_2_eq_2)
  show ?thesis
    using kernelMatrix_regularisation [of ?s "[0, 1]" ?K, THEN conjunct2, THEN mp, OF s]
          kernelMatrix_regularisation [of ?l "[0, 1]" ?K, THEN conjunct1, THEN mp, OF l]
    by (simp add: r)
qed

text \<open>
  Claim C5 as stated fails: a \<^verbatim>\<open>Linear\<close> kernel whose evaluation is
  \<open>[[4]]\<close> gets \<open>[[4]]\<close> back, with no regularisation; a stationary kernel with
  base diagonal \<open>100\<close> gets \<open>10\<^sup>-\<^sup>5\<close> added, not \<open>100 \<cdot> 10\<^sup>-\<^sup>5\<close>; and
  on the same kernel and times the two engines return different matrices.
\<close>

theorem kernelMatrix_regularisation_counterexample:
  "kernelMatrix_npvi \<lparr>kernel_class = Linear, call_r = (\<lambda>r. Inl TypeError),
       call_t = (\<lambda>a b. Inr [[4]])\<rparr> [2] = Inr [[4]]
   \<and> kernelMatrix_npvi \<lparr>kernel_class = Stationary, call_r = (\<lambda>r. Inr [[100]]),
       call_t = (\<lambda>a b. Inl TypeError)\<rparr> [2] = Inr [[100 + 1 / 100000]]
   \<and> kernelMatrix_mfi_old \<lparr>kernel_class = Stationary, call_r = (\<lambda>r. Inr [[100]]),
       call_t = (\<lambda>a b. Inl TypeError)\<rparr> [2] = Inr [[100 + 1 / 1000000]]
   \<and> kernelMatrix_npvi \<lparr>kernel_class = Stationary, call_r = (\<lambda>r. Inr [[100]]),
       call_t = (\<lambda>a b. Inl TypeError)\<rparr> [2]
     \<noteq> kernelMatrix_mfi_old \<lparr>kernel_class = Stationary, call_r = (\<lambda>r. Inr [[100]]),
       call_t = (\<lambda>a b. Inl TypeError)\<rparr> [2]"
  by (simp add: kernelMatrix_npvi_def kernelMatrix_mfi_old_def kernelMatrix_def lag_matrix_def
        np_ones_like_def np_diag_def np_diagflat_def np_scale_def np_add_def bdim_def bget_def
        ncols_def)

lemma predictKernelMatrix_nonstationary:
  assumes "kernel_class k = Linear \<or> kernel_class k = Polynomial"
    and "call_t k (query_array time) (Arr2 [self_time self]) = Inr K0"
  shows "predictKernelMatrix self k time
       = (case call_r k (lag_matrix (query_values time) (self_time self)) of
            Inl e \<Rightarrow> Inl e | Inr K \<Rightarrow> Inr (Arr2 K))"
  using assms by (auto simp: predictKernelMatrix_def lag_matrix_def)

lemma predictKernelMatrix_WhiteNoise:
  assumes "kernel_class k = WhiteNoise"
  shows "predictKernelMatrix self k time = Inr (Arr1 (replicate (length (self_time self)) 0))"
  using assms by (simp add: predictKernelMatrix_def map_replicate_const)

lemma for_loop_snoc:
  "for_loop body (xs @ [x]) s
     = (case for_loop body xs s of Inl e \<Rightarrow> Inl e | Inr s' \<Rightarrow> body x s')"
  by (induction xs arbitrary: s) (auto split: sum.splits)

lemma in_block_iff:
  assumes "0 < (n::nat)"
  shows "(k * n \<le> a \<and> a < k * n + n) \<longleftrightarrow> a div n = k"
proof
  assume "k * n \<le> a \<and> a < k * n + n"
  then have "n * k \<le> a" and "a < n * Suc k" by (simp_all add: mult.commute)
  then show "a div n = k" by (rule div_nat_eqI)
next
  assume "a div n = k"
  then show "k * n \<le> a \<and> a < k * n + n"
    using assms by (metis div_mult_mod_eq le_add1 mod_less_divisor nat_add_left_cancel_less)
qed

lemma blocks_upto_0: "blocks_upto n Bs 0 = np_zeros (n * length Bs) (n * length Bs)"
  by (simp add: blocks_upto_def np_zeros_def map_replicate_const)

lemma blocks_upto_all: "blocks_upto n Bs (length Bs) = block_diagonal n Bs"
proof (cases "n = 0")
  case True
  then show ?thesis by (simp add: blocks_upto_def block_diagonal_def)
next
  case False
  have "a div n < length Bs" if "a < n * length Bs" for a
    using that False by (simp add: less_mult_imp_div_less mult.commute)
  then show ?thesis
    unfolding blocks_upto_def block_diagonal_def
    by (intro map_cong refl) simp
qed

lemma length_blocks_upto [simp]: "length (blocks_upto n Bs k) = n * length Bs"
  by (simp add: blocks_upto_def)

lemma ncols_blocks_upto [simp]: "ncols (blocks_upto n Bs k) = n * length Bs"
  by (cases "n * length Bs") (simp_all add: blocks_upto_def ncols_def hd_map upt_conv_Cons del: upt_Suc)

lemma nth_blocks_upto:
  "a < n * length Bs \<Longrightarrow> b < n * length Bs \<Longrightarrow>
   blocks_upto n Bs k ! a ! b
     = (if a div n = b div n \<and> a div n < k then Bs ! (a div n) ! (a mod n) ! (b mod n) else 0)"
  by (simp add: blocks_upto_def)

lemma assign_block_step:
  assumes k: "k < length Bs" and sh: "has_shape (Bs ! k) n n"
  shows "assign_block (blocks_upto n Bs k) (k * n) n (Bs ! k) = Inr (blocks_upto n Bs (Suc k))"
proof (cases "n = 0")
  case True
  then have "Bs ! k = []" using sh by (simp add: has_shape_def)
  then show ?thesis using True
    by (simp add: assign_block_def blocks_upto_def ncols_def)
next
  case False
  then have n: "0 < n" by simp
  let ?D = "n * length Bs"
  let ?V = "Bs ! k"
  have le: "k * n + n \<le> ?D"
  proof -
    have "Suc k * n \<le> length Bs * n" using k by (intro mult_le_mono1) simp
    then show ?thesis by (simp add: mult.commute)
  qed
  have lV: "length ?V = n" using sh by (simp add: has_shape_def)
  have cV: "ncols ?V = n" using ncols_shape [OF sh n] .
  have rows: "min (k * n + n) ?D - min (k * n) ?D = n" using le by simp
  have ent: "(if k * n \<le> a \<and> a < k * n + n \<and> k * n \<le> b \<and> b < k * n + n
              then bget ?V (a - k * n) (b - k * n) else blocks_upto n Bs k ! a ! b)
           = (if a div n = b div n \<and> a div n < Suc k
              then Bs ! (a div n) ! (a mod n) ! (b mod n) else 0)"
    if a: "a < ?D" and b: "b < ?D" for a b
  proof (cases "a div n = k \<and> b div n = k")
    case True
    then have w: "k * n \<le> a \<and> a < k * n + n" "k * n \<le> b \<and> b < k * n + n"
      using in_block_iff [OF n] by blast+
    have am: "a - k * n = a mod n" using True
      by (metis add_diff_cancel_left' div_mult_mod_eq)
    have bm: "b - k * n = b mod n" using True
      by (metis add_diff_cancel_left' div_mult_mod_eq)
    have "bget ?V (a mod n) (b mod n) = ?V ! (a mod n) ! (b mod n)"
      using n by (auto simp: bget_def lV cV)
    then show ?thesis using True w by (simp add: am bm)
  next
    case False
    then have nw: "\<not> (k * n \<le> a \<and> a < k * n + n \<and> k * n \<le> b \<and> b < k * n + n)"
      using in_block_iff [OF n] by blast
    have eq: "(a div n = b div n \<and> a div n < k) = (a div n = b div n \<and> a div n < Suc k)"
      using False by (auto simp: less_Suc_eq)
    have l: "(if k * n \<le> a \<and> a < k * n + n \<and> k * n \<le> b \<and> b < k * n + n
              then bget ?V (a - k * n) (b - k * n) else blocks_upto n Bs k ! a ! b)
            = blocks_upto n Bs k ! a ! b"
      using nw by (rule if_not_P)
    note l
    also have "blocks_upto n Bs k ! a ! b
        = (if a div n = b div n \<and> a div n < k then Bs ! (a div n) ! (a mod n) ! (b mod n) else 0)"
      by (rule nth_blocks_upto [OF a b])
    also have "\<dots> = (if a div n = b div n \<and> a div n < Suc k
                       then Bs ! (a div n) ! (a mod n) ! (b mod n) else 0)"
      by (simp only: eq)
    finally show ?thesis .
  qed
  have "assign_block (blocks_upto n Bs k) (k * n) n ?V
      = Inr (map (\<lambda>a. map (\<lambda>b. if k * n \<le> a \<and> a < k * n + n \<and> k * n \<le> b \<and> b < k * n + n
                                   then bget ?V (a - k * n) (b - k * n)
                                   else blocks_upto n Bs k ! a ! b) [0..<?D]) [0..<?D])"
    by (simp add: assign_block_def rows lV cV Let_def)
  also have "map (\<lambda>a. map (\<lambda>b. if k * n \<le> a \<and> a < k * n + n \<and> k * n \<le> b \<and> b < k * n + n
                                   then bget ?V (a - k * n) (b - k * n)
                                   else blocks_upto n Bs k ! a ! b) [0..<?D]) [0..<?D]
      = blocks_upto n Bs (Suc k)"
    unfolding blocks_upto_def [of n Bs "Suc k"]
    by (intro map_cong refl) (simp add: ent)
  finally show ?thesis .
qed

lemma nodes_loop:
  assumes ks: "list_all2 (\<lambda>k K. kernelMatrix c k t = Inr K
                                \<and> has_shape K (length t) (length t)) nodes Kfs"
  shows "m \<le> length nodes \<Longrightarrow>
    for_loop
      (\<lambda>i (CB, pos).
         if i < length nodes
         then (case kernelMatrix c (nodes ! i) t of
                 Inl e \<Rightarrow> Inl e
               | Inr node_CovMatrix \<Rightarrow>
                  (case assign_block CB pos (length t) node_CovMatrix of
                     Inl e \<Rightarrow> Inl e
                   | Inr CB \<Rightarrow> Inr (CB, pos + length t)))
         else Inl IndexError)
      [0..<m] (blocks_upto (length t) (Kfs @ Rest) 0, 0)
    = Inr (blocks_upto (length t) (Kfs @ Rest) m, m * length t)"
proof (induction m)
  case 0
  then show ?case by simp
next
  case (Suc m)
  have len: "length Kfs = length nodes" using ks by (simp add: list_all2_lengthD)
  have m: "m < length nodes" using Suc.prems by simp
  have km: "kernelMatrix c (nodes ! m) t = Inr (Kfs ! m)" and sh: "has_shape (Kfs ! m) (length t) (length t)"
    using list_all2_nthD [OF ks m] by simp_all
  have nth: "(Kfs @ Rest) ! m = Kfs ! m" using m len by (simp add: nth_append)
  have step: "assign_block (blocks_upto (length t) (Kfs @ Rest) m) (m * length t) (length t) (Kfs ! m)
      = Inr (blocks_upto (length t) (Kfs @ Rest) (Suc m))"
    using assign_block_step [of m "Kfs @ Rest" "length t"] m len sh by (simp add: nth)
  have ih: "for_loop
      (\<lambda>i (CB, pos).
         if i < length nodes
         then (case kernelMatrix c (nodes ! i) t of
                 Inl e \<Rightarrow> Inl e
               | Inr node_CovMatrix \<Rightarrow>
                  (case assign_block CB pos (length t) node_CovMatrix of
                     Inl e \<Rightarrow> Inl e
                   | Inr CB \<Rightarrow> Inr (CB, pos + length t)))
         else Inl IndexError)
      [0..<m] (blocks_upto (length t) (Kfs @ Rest) 0, 0)
    = Inr (blocks_upto (length t) (Kfs @ Rest) m, m * length t)"
    using Suc.IH m by simp
  show ?case
    by (simp only: upt_Suc_append [OF le0] for_loop_snoc ih sum.case prod.case m if_True km
          step)
       simp
qed

lemma weights_loop:
  assumes sh: "has_shape Kw (length t) (length t)"
  shows "m \<le> r \<Longrightarrow>
    for_loop
      (\<lambda>i (CB, pos).
         case assign_block CB pos (length t) Kw of
           Inl e \<Rightarrow> Inl e
         | Inr CB \<Rightarrow> Inr (CB, pos + length t))
      [0..<m] (blocks_upto (length t) (Kfs @ replicate r Kw) (length Kfs), length Kfs * length t)
    = Inr (blocks_upto (length t) (Kfs @ replicate r Kw) (length Kfs + m), (length Kfs + m) * length t)"
proof (induction m)
  case 0
  then show ?case by simp
next
  case (Suc m)
  let ?Bs = "Kfs @ replicate r Kw"
  have m: "m < r" using Suc.prems by simp
  have nth: "?Bs ! (length Kfs + m) = Kw" using m by (simp add: nth_append)
  have step: "assign_block (blocks_upto (length t) ?Bs (length Kfs + m)) ((length Kfs + m) * length t) (length t) Kw
      = Inr (blocks_upto (length t) ?Bs (Suc (length Kfs + m)))"
    using assign_block_step [of "length Kfs + m" ?Bs "length t"] m sh by (simp add: nth)
  have ih: "for_loop
      (\<lambda>i (CB, pos).
         case assign_block CB pos (length t) Kw of
           Inl e \<Rightarrow> Inl e
         | Inr CB \<Rightarrow> Inr (CB, pos + length t))
      [0..<m] (blocks_upto (length t) ?Bs (length Kfs), length Kfs * length t)
    = Inr (blocks_upto (length t) ?Bs (length Kfs + m), (length Kfs + m) * length t)"
    using Suc.IH m by simp
  show ?case
    by (simp only: upt_Suc_append [OF le0] for_loop_snoc ih sum.case prod.case step)
       (simp add: algebra_simps)
qed

lemma block_diagonal_shape:
  "has_shape (block_diagonal n Bs) (n * length Bs) (n * length Bs)"
  by (simp add: has_shape_def block_diagonal_def list_all_iff)

lemma nth_block_diagonal:
  "a < n * length Bs \<Longrightarrow> b < n * length Bs \<Longrightarrow>
   block_diagonal n Bs ! a ! b
     = (if a div n = b div n then Bs ! (a div n) ! (a mod n) ! (b mod n) else 0)"
  by (simp add: block_diagonal_def)

text \<open>
  Claim C4. Let \<open>nodes\<close> be \<open>q\<close> kernels and \<open>weight\<close> one kernel whose
  \<^verbatim>\<open>_kernelMatrix\<close> evaluations on a time vector of length \<open>N\<close> are the
  \<open>N \<times> N\<close> matrices \<open>Kfs\<close> (in node order) and \<open>Kw\<close>, in an engine with
  \<open>qp = q\<cdot>p\<close> as \<^verbatim>\<open>__init__\<close> sets it. Then \<^verbatim>\<open>_CB_matrix\<close>
  returns the square matrix of size \<open>N\<cdot>q\<cdot>(p+1)\<close> that is block diagonal with the
  blocks \<open>Kfs\<close> first and then \<open>q\<cdot>p\<close> copies of \<open>Kw\<close>: entry \<open>(a, b)\<close> is
  the entry \<open>(a mod N, b mod N)\<close> of block \<open>a div N\<close> when \<open>a div N = b div N\<close>,
  and exactly zero otherwise.
\<close>

theorem CB_matrix_block_diagonal:
  assumes "length nodes = self_q self"
    and "self_qp self = self_q self * self_p self"
    and "list_all2 (\<lambda>k K. kernelMatrix c k time = Inr K
                            \<and> has_shape K (length time) (length time)) nodes Kfs"
    and "kernelMatrix c weight time = Inr Kw"
    and "has_shape Kw (length time) (length time)"
  shows "CB_matrix c self nodes weight time
           = Inr (block_diagonal (length time) (Kfs @ replicate (self_q self * self_p self) Kw))
       \<and> has_shape (block_diagonal (length time) (Kfs @ replicate (self_q self * self_p self) Kw))
           (length time * self_q self * (self_p self + 1))
           (length time * self_q self * (self_p self + 1))
       \<and> (\<forall>a < length time * self_q self * (self_p self + 1).
          \<forall>b < length time * self_q self * (self_p self + 1).
            block_diagonal (length time) (Kfs @ replicate (self_q self * self_p self) Kw) ! a ! b
              = (if a div length time = b div length time
                 then (if a div length time < self_q self
                       then Kfs ! (a div length time) else Kw)
                      ! (a mod length time) ! (b mod length time)
                 else 0))"
proof -
  let ?n = "length time"
  let ?q = "self_q self"
  let ?r = "self_q self * self_p self"
  let ?Bs = "Kfs @ replicate ?r Kw"
  let ?D = "?n * ?q * (self_p self + 1)"
  have lenK: "length Kfs = ?q" using assms(1,3) by (simp add: list_all2_lengthD)
  have lenBs: "?n * length ?Bs = ?D" by (simp add: lenK algebra_simps)
  have zeros: "np_zeros ?D ?D = blocks_upto ?n ?Bs 0"
    by (simp add: blocks_upto_0 lenBs del: length_append length_replicate)
  have l1: "for_loop
      (\<lambda>i (CB, pos).
         if i < length nodes
         then (case kernelMatrix c (nodes ! i) time of
                 Inl e \<Rightarrow> Inl e
               | Inr node_CovMatrix \<Rightarrow>
                  (case assign_block CB pos (length time) node_CovMatrix of
                     Inl e \<Rightarrow> Inl e
                   | Inr CB \<Rightarrow> Inr (CB, pos + length time)))
         else Inl IndexError)
      [0..<?q] (blocks_upto ?n ?Bs 0, 0)
    = Inr (blocks_upto ?n ?Bs ?q, ?q * ?n)"
    using nodes_loop [OF assms(3), of ?q "replicate ?r Kw"] assms(1) by simp
  have l2: "for_loop
      (\<lambda>i (CB, pos).
         case assign_block CB pos (length time) Kw of
           Inl e \<Rightarrow> Inl e
         | Inr CB \<Rightarrow> Inr (CB, pos + length time))
      [0..<?r] (blocks_upto ?n ?Bs ?q, ?q * ?n)
    = Inr (blocks_upto ?n ?Bs (?q + ?r), (?q + ?r) * ?n)"
    using weights_loop [OF assms(5), of ?r ?r Kfs] by (simp add: lenK)
  have full: "blocks_upto ?n ?Bs (?q + ?r) = block_diagonal ?n ?Bs"
    using blocks_upto_all [of ?n ?Bs] by (simp add: lenK)
  have run: "CB_matrix c self nodes weight time = Inr (block_diagonal ?n ?Bs)"
    unfolding CB_matrix_def Let_def zeros
    by (simp only: l1 sum.case prod.case assms(4) assms(2) l2 full)
  have shape: "has_shape (block_diagonal ?n ?Bs) ?D ?D"
    using block_diagonal_shape [of ?n ?Bs] by (simp only: lenBs)
  have entries: "block_diagonal ?n ?Bs ! a ! b
              = (if a div ?n = b div ?n
                 then (if a div ?n < ?q then Kfs ! (a div ?n) else Kw) ! (a mod ?n) ! (b mod ?n)
                 else 0)"
    if a: "a < ?D" and b: "b < ?D" for a b
  proof -
    have n0: "0 < ?n" using a by (cases "?n = 0") simp_all
    have "a div ?n < length ?Bs"
      using a n0 unfolding lenBs [symmetric] by (simp add: less_mult_imp_div_less mult.commute)
    then have e2: "?Bs ! (a div ?n) = (if a div ?n < ?q then Kfs ! (a div ?n) else Kw)"
      by (simp add: nth_append lenK)
    have e1: "block_diagonal ?n ?Bs ! a ! b
        = (if a div ?n = b div ?n then ?Bs ! (a div ?n) ! (a mod ?n) ! (b mod ?n) else 0)"
      by (rule nth_block_diagonal) (simp_all only: lenBs a b)
    show ?thesis unfolding e1 e2 by (rule refl)
  qed
  show ?thesis using run shape entries by blast
qed

theorem CB_matrix_block_diagonal_witness:
  "CB_matrix (1 / 100000)
     \<lparr>self_nodes = [\<lparr>kernel_class = Stationary, call_r = (\<lambda>r. Inr (map (map (\<lambda>x. 1)) r)),
                      call_t = (\<lambda>a b. Inl TypeError)\<rparr>],
      self_weight = \<lparr>kernel_class = Linear, call_r = (\<lambda>r. Inl TypeError),
                      call_t = (\<lambda>a b. Inr [[5, 6], [7, 8]])\<rparr>,
      self_means = [None], self_jitters = [0], self_time = [0, 1],
      self_args = [[1, 2], [1, 1]], self_q = 1, self_p = 1, self_qp = 1, self_N = 2,
      self_tt = [0, 1], self_y = [[1, 2]], self_yerr = [[1, 1]]\<rparr>
     [\<lparr>kernel_class = Stationary, call_r = (\<lambda>r. Inr (map (map (\<lambda>x. 1)) r)),
        call_t = (\<lambda>a b. Inl TypeError)\<rparr>]
     \<lparr>kernel_class = Linear, call_r = (\<lambda>r. Inl TypeError),
        call_t = (\<lambda>a b. Inr [[5, 6], [7, 8]])\<rparr>
     [0, 1]
   = Inr [[1 + 1 / 100000, 1, 0, 0],
          [1, 1 + 1 / 100000, 0, 0],
          [0, 0, 5, 6],
          [0, 0, 7, 8]]"
proof -
  let ?kn = "\<lparr>kernel_class = Stationary, call_r = (\<lambda>r. Inr (map (map (\<lambda>x. 1)) r)),
               call_t = (\<lambda>a b. Inl TypeError)\<rparr>"
  let ?kw = "\<lparr>kernel_class = Linear, call_r = (\<lambda>r. Inl TypeError),
               call_t = (\<lambda>a b. Inr [[5, 6], [7, 8]])\<rparr>"
  let ?self = "\<lparr>self_nodes = [?kn], self_weight = ?kw,
      self_means = [None], self_jitters = [0], self_time = [0, 1],
      self_args = [[1, 2], [1, 1]], self_q = 1, self_p = 1, self_qp = 1, self_N = 2,
      self_tt = [0, 1], self_y = [[1, 2]], self_yerr = [[1, 1]]\<rparr>"
  let ?Kn = "[[1 + 1 / 100000, 1], [1, 1 + 1 / 100000]] :: mat"
  let ?Kw = "[[5, 6], [7, 8]] :: mat"
  let ?t = "[0, 1] :: vec"
  have kn: "kernelMatrix (1 / 100000) ?kn ?t = Inr ?Kn"
    using kernelMatrix_stationary [of ?kn ?t "[[1, 1], [1, 1]]" "1 / 100000"]
    by (simp add: lag_matrix_def has_shape_def regularised_def numeral_2_eq_2)
  have kw: "kernelMatrix (1 / 100000) ?kw ?t = Inr ?Kw"
    by (simp add: kernelMatrix_def)
  have h1: "length [?kn] = self_q ?self" by simp
  have h2: "self_qp ?self = self_q ?self * self_p ?self" by simp
  have h3: "list_all2 (\<lambda>k K. kernelMatrix (1 / 100000) k ?t = Inr K
                            \<and> has_shape K (length ?t) (length ?t)) [?kn] [?Kn]"
    using kn by (simp add: has_shape_def)
  have h5: "has_shape ?Kw (length ?t) (length ?t)" by (simp add: has_shape_def)
  have up: "[0..<4] = [0, 1, 2, 3 :: nat]" by (simp add: upt_rec)
  have bd: "block_diagonal (length ?t) ([?Kn] @ replicate (self_q ?self * self_p ?self) ?Kw)
      = [[1 + 1 / 100000, 1, 0, 0], [1, 1 + 1 / 100000, 0, 0], [0, 0, 5, 6], [0, 0, 7, 8]]"
  proof -
    have l: "length ?t * length ([?Kn] @ replicate (self_q ?self * self_p ?self) ?Kw) = 4"
      by simp
    have n: "length ?t = 2" by simp
    have B: "[?Kn] @ replicate (self_q ?self * self_p ?self) ?Kw = [?Kn, ?Kw]" by simp
    show ?thesis
      unfolding block_diagonal_def l n B
      by (simp add: up)
  qed
  show ?thesis
    using CB_matrix_block_diagonal [of "[?kn]" ?self "1 / 100000" ?t "[?Kn]" ?kw ?Kw,
            OF h1 h2 h3 kw h5, THEN conjunct1]
    unfolding bd .
qed

text \<open>
  Claim C8 fails on the code for \<^verbatim>\<open>Linear\<close> and \<^verbatim>\<open>Polynomial\<close>
  kernels. The evaluation on the two raw time arrays (here \<open>[[7, 7]]\<close>) is computed and
  then overwritten by \<^verbatim>\<open>kernel(r)\<close> on the lags: when that call raises, the
  method raises; when it returns, the method returns the lag evaluation. Only the
  \<^verbatim>\<open>WhiteNoise\<close> part of the claim holds, see
  \<open>predictKernelMatrix_WhiteNoise\<close>.
\<close>

theorem predictKernelMatrix_overwrites:
  "predictKernelMatrix self
     \<lparr>kernel_class = Linear, call_r = (\<lambda>r. Inl TypeError),
      call_t = (\<lambda>a b. Inr [[7, 7]])\<rparr> (Scalar 2)
     = Inl TypeError
   \<and> predictKernelMatrix self
     \<lparr>kernel_class = Polynomial, call_r = (\<lambda>r. Inr r),
      call_t = (\<lambda>a b. Inr [[7, 7]])\<rparr> (Scalar 2)
     = Inr (Arr2 [map (\<lambda>s. 2 - s) (self_time self)])"
  by (simp add: predictKernelMatrix_def query_size_def query_values_def query_array_def)


section \<open>Proofs: the noise term, construction, and \<^verbatim>\<open>get_y\<close>\<close>

lemma fold_add_upt:
  "fold (\<lambda>i e. e + f i) [0..<p] (e0 :: real) = e0 + (\<Sum>i<p. f i)"
  by (induction p) (simp_all add: algebra_simps)

lemma error_term_before_override:
  "(let error_term = sqrt (sum_list (map (\<lambda>x. x\<^sup>2) jitters)) / real p;
        error_term = fold (\<lambda>i error_term.
                             error_term + sqrt (sum_list (map (\<lambda>x. x\<^sup>2) (yerr ! i))) / real N)
                       [0..<p] error_term
    in error_term) = noise_combination p N yerr jitters"
  by (simp add: Let_def noise_combination_def fold_add_upt)

text \<open>
  Claim C3, as the code has it. In \<^verbatim>\<open>_updateSigmaMu_new\<close> and in
  \<^verbatim>\<open>_expectedLogLike_new\<close> the scalar \<^verbatim>\<open>error_term\<close> is the constant
  1 for every jitter vector and every error matrix: the combination of the jitters and
  the measurement errors is computed (\<open>error_term_before_override\<close>) and then
  overwritten by \<^verbatim>\<open>error_term = 1\<close>. So the expected log-likelihood is
  \<open>-\<Sum>Ydiff / 2\<close>, whatever the jitters and errors.
\<close>

theorem error_term_constant:
  "error_term_block p N yerr jitters = 1
   \<and> logl p N yerr jitters Ydiff = - sum_list Ydiff / 2"
  by (simp add: error_term_block_def logl_def Let_def)

text \<open>
  Claim C3 as stated fails: with one output and one observation, jitter 2 and error 2
  combine to 4 and jitter 0 and error 0 combine to 0, yet the \<^verbatim>\<open>error_term\<close>
  the methods use is the same for both inputs.
\<close>

theorem error_term_constant_counterexample:
  "noise_combination 1 1 [[2]] [2] = 4
   \<and> noise_combination 1 1 [[0]] [0] = 0
   \<and> error_term_block 1 1 [[2]] [2] = error_term_block 1 1 [[0]] [0]"
  by (simp add: noise_combination_def error_term_block_def Let_def)

lemma stack_reshape_error:
  "stack_reshape ys h w = Inl e \<Longrightarrow> e = ValueError"
  by (auto simp: stack_reshape_def reshape_rows_def split: if_splits)

lemma odd_half:
  assumes "odd n"
  shows "(real (n - 1) + 1) / 2 \<noteq> real (n div 2)"
proof -
  obtain k where n: "n = 2 * k + 1" using assms by (auto elim: oddE)
  have "(real (n - 1) + 1) / 2 = real k + 1 / 2" by (simp add: n)
  moreover have "real (n div 2) = real k" by (simp add: n)
  ultimately show ?thesis by simp
qed

text \<open>
  Claim C9, as the code has it. The number of outputs is not declared: it is
  \<open>p = len(args) div 2\<close>. With an odd number of data arguments, or with a list of means
  whose length is not \<open>p\<close>, \<^verbatim>\<open>__init__\<close> always raises, so nothing is
  silently truncated; what it raises is \<^verbatim>\<open>ValueError\<close> from a reshape, or
  \<^verbatim>\<open>AssertionError\<close> with one of two constant messages, neither of which names
  a count.
\<close>

theorem init_rejects_mismatch:
  assumes "odd (length args) \<or> length means \<noteq> length args div 2"
  shows "init nodes weight means jitters time args = Inl ValueError
       \<or> init nodes weight means jitters time args
           = Inl (AssertionError
               ''The numbers of means should be equal to the number of components'')
       \<or> init nodes weight means jitters time args
           = Inl (AssertionError ''Given data and number of components dont match'')"
proof -
  let ?p = "length args div 2"
  let ?ys = "map (\<lambda>i. args ! i) (filter (\<lambda>i. i mod 2 = 0) [0..<length args])"
  let ?yerrs = "map (\<lambda>i. args ! i) (filter (\<lambda>i. i mod 2 \<noteq> 0) [0..<length args])"
  show ?thesis
  proof (cases "stack_reshape ?ys ?p (length time)")
    case (Inl e)
    then have "e = ValueError" by (rule stack_reshape_error)
    then show ?thesis using Inl by (simp add: init_def Let_def)
  next
    case y: (Inr y)
    show ?thesis
    proof (cases "stack_reshape ?yerrs ?p (length time)")
      case (Inl e)
      then have "e = ValueError" by (rule stack_reshape_error)
      then show ?thesis using Inl y by (simp add: init_def Let_def)
    next
      case yerr: (Inr yerr)
      show ?thesis
      proof (cases "length means \<noteq> ?p")
        case True
        then show ?thesis using y yerr by (simp add: init_def Let_def)
      next
        case False
        then have odd: "odd (length args)" using assms by blast
        then have ne: "args \<noteq> []" by (cases args) simp_all
        have "(real (length args - 1) + 1) / 2 \<noteq> real ?p" using odd by (rule odd_half)
        then show ?thesis using y yerr False ne by (simp add: init_def Let_def)
      qed
    qed
  qed
qed

lemma init_fields:
  assumes "init nodes weight means jitters time args = Inr self"
  shows "self_q self = length nodes \<and> self_p self = length args div 2
       \<and> self_qp self = self_q self * self_p self \<and> self_N self = length time
       \<and> length means = self_p self \<and> even (length args)"
proof -
  have half: "(real (length args - 1) + 1) / 2 = real (length args div 2)"
    using assms by (auto simp: init_def Let_def split: sum.splits if_splits)
  have "even (length args)"
  proof (rule ccontr)
    assume "odd (length args)"
    then show False using odd_half [of "length args"] half by simp
  qed
  then show ?thesis
    using assms by (auto simp: init_def Let_def split: sum.splits if_splits)
qed

theorem init_rejects_mismatch_witness:
  "odd (length [[1, 2], [1, 1], [3, 4 :: real]])
   \<and> (init [] \<lparr>kernel_class = Stationary, call_r = (\<lambda>r. Inr r), call_t = (\<lambda>a b. Inl TypeError)\<rparr>
         [None, None] [0, 0] [0, 1] [[1, 2], [1, 1], [3, 4]] = Inl ValueError
      \<or> init [] \<lparr>kernel_class = Stationary, call_r = (\<lambda>r. Inr r), call_t = (\<lambda>a b. Inl TypeError)\<rparr>
         [None, None] [0, 0] [0, 1] [[1, 2], [1, 1], [3, 4]]
           = Inl (AssertionError
               ''The numbers of means should be equal to the number of components'')
      \<or> init [] \<lparr>kernel_class = Stationary, call_r = (\<lambda>r. Inr r), call_t = (\<lambda>a b. Inl TypeError)\<rparr>
         [None, None] [0, 0] [0, 1] [[1, 2], [1, 1], [3, 4]]
           = Inl (AssertionError ''Given data and number of components dont match''))"
proof -
  have h: "odd (length [[1, 2], [1, 1], [3, 4 :: real]])
           \<or> length [None, None :: meanfun] \<noteq> length [[1, 2], [1, 1], [3, 4 :: real]] div 2"
    by simp
  show ?thesis
    using init_rejects_mismatch [OF h] by simp
qed

text \<open>
  Claim C9 as stated fails. Three data arrays with two means, the scenario of the
  specification, raise \<^verbatim>\<open>ValueError\<close> from the reshape before any assertion is
  reached. With four data arrays (two outputs), one mean and three means raise the very
  same \<^verbatim>\<open>AssertionError\<close>: the error does not name the mismatched count.
\<close>

theorem init_rejects_mismatch_counterexample:
  "init [] \<lparr>kernel_class = Stationary, call_r = (\<lambda>r. Inr r), call_t = (\<lambda>a b. Inl TypeError)\<rparr>
     [None, None] [0, 0] [0, 1] [[1, 2], [1, 1], [3, 4]] = Inl ValueError
   \<and> init [] \<lparr>kernel_class = Stationary, call_r = (\<lambda>r. Inr r), call_t = (\<lambda>a b. Inl TypeError)\<rparr>
     [None] [0, 0] [0, 1] [[1, 2], [1, 1], [3, 4], [1, 1]]
       = Inl (AssertionError ''The numbers of means should be equal to the number of components'')
   \<and> init [] \<lparr>kernel_class = Stationary, call_r = (\<lambda>r. Inr r), call_t = (\<lambda>a b. Inl TypeError)\<rparr>
     [None, None, None] [0, 0] [0, 1] [[1, 2], [1, 1], [3, 4], [1, 1]]
       = Inl (AssertionError ''The numbers of means should be equal to the number of components'')"
proof -
  have u3: "[0..<3] = [0, 1, 2 :: nat]" and u4: "[0..<4] = [0, 1, 2, 3 :: nat]"
    by (simp_all add: upt_rec)
  show ?thesis
    by (simp add: init_def Let_def stack_reshape_def reshape_rows_def u3 u4)
qed

lemma reshape_rows_error: "reshape_rows flat h w = Inl e \<Longrightarrow> e = ValueError"
  by (simp add: reshape_rows_def split: if_splits)

lemma einsum_error: "einsum_ij_jk w n = Inl e \<Longrightarrow> e = ValueError"
  by (auto simp: einsum_ij_jk_def split: prod.splits option.splits)

lemma get_y_falsy:
  assumes "means = None \<or> means = Some []"
  shows "get_y self n w time means
       = (case einsum_ij_jk w n of
            Inl e \<Rightarrow> Inl e
          | Inr wn \<Rightarrow>
             (case reshape_rows (concat (concat wn)) (self_p self) (length time) of
                Inl e \<Rightarrow> Inl e
              | Inr y \<Rightarrow> Inr (Arr1 time)))"
  using assms by (auto simp: get_y_def split: sum.splits)

lemma shape3_has_shape3:
  assumes "has_shape3 a I J T" and "0 < I" and "0 < J"
  shows "shape3 a = (I, J, T)"
proof -
  have ne: "a \<noteq> []" and l: "length a = I" using assms(1,2) by (auto simp: has_shape3_def)
  have "hd a \<in> set a" using ne by simp
  then have h: "has_shape (hd a) J T" using assms(1) by (simp add: has_shape3_def list_all_iff)
  then have ne2: "hd a \<noteq> []" and l2: "length (hd a) = J" using assms(3) by (auto simp: has_shape_def)
  have "hd (hd a) \<in> set (hd a)" using ne2 by simp
  then have "length (hd (hd a)) = T" using h by (simp add: has_shape_def list_all_iff)
  then show ?thesis using ne ne2 l l2 by (simp add: shape3_def)
qed

lemma length_concat_const:
  assumes "\<And>x. x \<in> set xss \<Longrightarrow> length x = c"
  shows "length (concat xss) = length xss * c"
  using assms by (induction xss) simp_all

lemma einsum_conforming:
  assumes "has_shape3 w I J T" and "has_shape3 n J K T" and "0 < I" and "0 < J" and "0 < K"
  shows "\<exists>wn. einsum_ij_jk w n = Inr wn \<and> length (concat (concat wn)) = I * K * T"
proof -
  have sw: "shape3 w = (I, J, T)" by (rule shape3_has_shape3 [OF assms(1,3,4)])
  have sn: "shape3 n = (J, K, T)" by (rule shape3_has_shape3 [OF assms(2,4,5)])
  let ?wn = "map (\<lambda>i. map (\<lambda>k. map (\<lambda>t.
                      \<Sum>j<J. w ! i ! (if J = 1 then 0 else j) ! (if T = 1 then 0 else t)
                             * n ! (if J = 1 then 0 else j) ! k ! (if T = 1 then 0 else t))
                    [0..<T]) [0..<K]) [0..<I]"
  have e: "einsum_ij_jk w n = Inr ?wn"
    by (simp add: einsum_ij_jk_def sw sn bdim_same)
  have "length (concat ?wn) = I * K"
    by (subst length_concat_const [where c = K]) auto
  moreover have "length (concat (concat ?wn)) = length (concat ?wn) * T"
    by (rule length_concat_const) auto
  ultimately have "length (concat (concat ?wn)) = I * K * T" by simp
  then show ?thesis using e by blast
qed

lemma einsum_native:
  assumes n: "has_shape3 n 1 Q T" and w: "has_shape3 w P Q T" and "0 < P" and "0 < Q"
  shows "\<exists>wn. einsum_ij_jk w n = Inr wn \<and> length (concat (concat wn)) = P * Q * T"
proof -
  have sw: "shape3 w = (P, Q, T)" by (rule shape3_has_shape3 [OF w assms(3,4)])
  have sn: "shape3 n = (1, Q, T)" by (rule shape3_has_shape3 [OF n _ assms(4)]) simp
  have bq: "bdim Q (Suc 0) = Some Q" by (simp add: bdim_def)
  let ?wn = "map (\<lambda>i. map (\<lambda>k. map (\<lambda>t.
                      \<Sum>j<Q. w ! i ! (if Q = 1 then 0 else j) ! (if T = 1 then 0 else t)
                             * n ! (if (1::nat) = 1 then 0 else j) ! k ! (if T = 1 then 0 else t))
                    [0..<T]) [0..<Q]) [0..<P]"
  have e: "einsum_ij_jk w n = Inr ?wn"
    unfolding einsum_ij_jk_def sw sn by (simp add: bq bdim_same)
  have "length (concat ?wn) = P * Q"
    by (subst length_concat_const [where c = Q]) auto
  moreover have "length (concat (concat ?wn)) = length (concat ?wn) * T"
    by (rule length_concat_const) auto
  ultimately have "length (concat (concat ?wn)) = P * Q * T" by simp
  then show ?thesis using e by blast
qed

lemma get_y_native_raises:
  assumes "means = None \<or> means = Some []"
    and "has_shape3 n 1 Q (length time)" and "has_shape3 w (self_p self) Q (length time)"
    and "2 \<le> Q" and "0 < self_p self" and "0 < length time"
  shows "get_y self n w time means = Inl ValueError"
proof -
  have q: "0 < Q" using assms(4) by simp
  obtain wn where wn: "einsum_ij_jk w n = Inr wn"
    and l: "length (concat (concat wn)) = self_p self * Q * length time"
    using einsum_native [OF assms(2,3,5) q] by blast
  have "self_p self * Q * length time \<noteq> self_p self * length time"
    using assms(4,5,6) by simp
  then show ?thesis
    by (simp add: get_y_falsy [OF assms(1)] wn reshape_rows_def l)
qed

text \<open>
  Claim C10, as the code has it. When \<open>means\<close> is \<^verbatim>\<open>None\<close> or the empty list,
  \<^verbatim>\<open>get_y(n, w, time, means)\<close> either raises \<^verbatim>\<open>ValueError\<close> while it
  computes or reshapes the product of the weights and the nodes, or returns the array
  \<open>time\<close> itself, the product being discarded.
  \<^item> It returns \<open>time\<close> whenever the shapes conform: \<open>w\<close> of shape \<open>(I, J, T)\<close>,
    \<open>n\<close> of shape \<open>(J, K, T)\<close>, none of \<open>I, J, K\<close> zero, and
    \<open>I\<cdot>K\<cdot>T = p\<cdot>len(time)\<close>.
  \<^item> It raises on the tensors the engine itself builds, \<open>n\<close> of shape \<open>(1, q, N)\<close> and
    \<open>w\<close> of shape \<open>(p, q, N)\<close> with \<open>N = len(time)\<close>, as soon as \<open>q \<ge> 2\<close>: the
    product has \<open>p\<cdot>q\<cdot>N\<close> elements, which do not reshape to \<open>(p, N)\<close>.
\<close>

theorem get_y_returns_time:
  assumes "means = None \<or> means = Some []"
  shows "(get_y self n w time means = Inr (Arr1 time)
          \<or> get_y self n w time means = Inl ValueError)
       \<and> (\<forall>I J K T. has_shape3 w I J T \<and> has_shape3 n J K T \<and> 0 < I \<and> 0 < J \<and> 0 < K
                    \<and> I * K * T = self_p self * length time
            \<longrightarrow> get_y self n w time means = Inr (Arr1 time))
       \<and> (\<forall>Q. has_shape3 n 1 Q (length time) \<and> has_shape3 w (self_p self) Q (length time)
               \<and> 2 \<le> Q \<and> 0 < self_p self \<and> 0 < length time
            \<longrightarrow> get_y self n w time means = Inl ValueError)"
proof -
  note f = get_y_falsy [OF assms, of self n w time]
  have a: "get_y self n w time means = Inr (Arr1 time)
          \<or> get_y self n w time means = Inl ValueError"
  proof (cases "einsum_ij_jk w n")
    case (Inl e)
    then show ?thesis using einsum_error [OF Inl] by (simp add: f)
  next
    case wn: (Inr wn)
    show ?thesis
    proof (cases "reshape_rows (concat (concat wn)) (self_p self) (length time)")
      case (Inl e)
      then show ?thesis using reshape_rows_error [OF Inl] wn by (simp add: f)
    next
      case (Inr y)
      then show ?thesis using wn by (simp add: f)
    qed
  qed
  have b: "get_y self n w time means = Inr (Arr1 time)"
    if h: "has_shape3 w I J T" "has_shape3 n J K T" "0 < I" "0 < J" "0 < K"
      "I * K * T = self_p self * length time" for I J K T
  proof -
    obtain wn where wn: "einsum_ij_jk w n = Inr wn"
      and l: "length (concat (concat wn)) = I * K * T"
      using einsum_conforming [OF h(1-5)] by blast
    show ?thesis by (simp add: f wn reshape_rows_def l h(6))
  qed
  have c: "get_y self n w time means = Inl ValueError"
    if "has_shape3 n 1 Q (length time)" "has_shape3 w (self_p self) Q (length time)"
      "2 \<le> Q" "0 < self_p self" "0 < length time" for Q
    using get_y_native_raises [OF assms that] .
  show ?thesis using a b c by blast
qed

theorem get_y_returns_time_witness:
  "get_y \<lparr>self_nodes = [], self_weight = \<lparr>kernel_class = Stationary, call_r = (\<lambda>r. Inr r),
                                          call_t = (\<lambda>a b. Inl TypeError)\<rparr>,
          self_means = [None, None], self_jitters = [0, 0], self_time = [0, 1, 2],
          self_args = [[1, 2, 3], [1, 1, 1], [4, 5, 6], [1, 1, 1]],
          self_q = 1, self_p = 2, self_qp = 2, self_N = 3, self_tt = [0, 1, 2, 0, 1, 2],
          self_y = [[1, 2, 3], [4, 5, 6]], self_yerr = [[1, 1, 1], [1, 1, 1]]\<rparr>
     [[[1, 2, 3]]] [[[1, 1, 1]], [[2, 2, 2]]] [7, 8, 9] None
   = Inr (Arr1 [7, 8, 9])"
proof -
  let ?self = "\<lparr>self_nodes = [], self_weight = \<lparr>kernel_class = Stationary, call_r = (\<lambda>r. Inr r),
                                          call_t = (\<lambda>a b. Inl TypeError)\<rparr>,
          self_means = [None, None], self_jitters = [0, 0], self_time = [0, 1, 2],
          self_args = [[1, 2, 3], [1, 1, 1], [4, 5, 6], [1, 1, 1]],
          self_q = 1, self_p = 2, self_qp = 2, self_N = 3, self_tt = [0, 1, 2, 0, 1, 2],
          self_y = [[1, 2, 3], [4, 5, 6]], self_yerr = [[1, 1, 1], [1, 1, 1]]\<rparr>"
  let ?n = "[[[1, 2, 3]]] :: tensor3"
  let ?w = "[[[1, 1, 1]], [[2, 2, 2]]] :: tensor3"
  have m: "(None :: meanfun list option) = None \<or> (None :: meanfun list option) = Some []"
    by simp
  have s: "has_shape3 ?w 2 1 3 \<and> has_shape3 ?n 1 1 3 \<and> (0::nat) < 2 \<and> (0::nat) < 1 \<and> (0::nat) < 1
           \<and> 2 * 1 * 3 = self_p ?self * length [7, 8, 9 :: real]"
    by (simp add: has_shape3_def has_shape_def)
  show ?thesis
    by (rule get_y_returns_time [OF m, of ?self ?n ?w "[7, 8, 9]", THEN conjunct2,
               THEN conjunct1,
               THEN spec [where x = 2], THEN spec [where x = 1], THEN spec [where x = 1],
               THEN spec [where x = 3], THEN mp, OF s])
qed

text \<open>
  Claim C10 as stated fails: with two outputs, two nodes and three times, on tensors of
  the shapes the engine builds (\<open>n\<close> of shape \<open>(1, 2, 3)\<close>, \<open>w\<close> of shape
  \<open>(2, 2, 3)\<close>) and \<open>means\<close> left as \<^verbatim>\<open>None\<close>, \<^verbatim>\<open>get_y\<close> raises
  \<^verbatim>\<open>ValueError\<close> and does not return the time vector.
\<close>

theorem get_y_returns_time_counterexample:
  "get_y \<lparr>self_nodes = [], self_weight = \<lparr>kernel_class = Stationary, call_r = (\<lambda>r. Inr r),
                                          call_t = (\<lambda>a b. Inl TypeError)\<rparr>,
          self_means = [None, None], self_jitters = [0, 0], self_time = [0, 1, 2],
          self_args = [[1, 2, 3], [1, 1, 1], [4, 5, 6], [1, 1, 1]],
          self_q = 2, self_p = 2, self_qp = 4, self_N = 3, self_tt = [0, 1, 2, 0, 1, 2],
          self_y = [[1, 2, 3], [4, 5, 6]], self_yerr = [[1, 1, 1], [1, 1, 1]]\<rparr>
     [[[1, 2, 3], [4, 5, 6]]] [[[1, 1, 1], [1, 1, 1]], [[2, 2, 2], [2, 2, 2]]] [7, 8, 9] None
   = Inl ValueError"
proof -
  let ?n = "[[[1, 2, 3], [4, 5, 6]]] :: tensor3"
  let ?w = "[[[1, 1, 1], [1, 1, 1]], [[2, 2, 2], [2, 2, 2]]] :: tensor3"
  have m: "(None :: meanfun list option) = None \<or> (None :: meanfun list option) = Some []"
    by simp
  show ?thesis
    by (rule get_y_native_raises [OF m, where Q = 2])
       (simp_all add: has_shape3_def has_shape_def)
qed


section \<open>Proofs: the mixture loop\<close>

lemma npvi_loop_no_value:
  assumes "EvidenceLowerBound_npvi_loop elj ent mini iterations iterNumber ExpLogJoint = Some r"
  shows "(iterNumber < iterations \<or> ExpLogJoint = None) \<longrightarrow> (\<forall>v. r \<noteq> Inr v)"
proof (rule EvidenceLowerBound_npvi_loop.raw_induct
         [where P = "\<lambda>elj ent mini iterations iterNumber ExpLogJoint r.
                       (iterNumber < iterations \<or> ExpLogJoint = None) \<longrightarrow> (\<forall>v. r \<noteq> Inr v)",
          OF _ assms])
  fix loop :: "(error + real) \<Rightarrow> (error + real) \<Rightarrow> (real \<Rightarrow> error + unit) \<Rightarrow> int \<Rightarrow> int
                 \<Rightarrow> real option \<Rightarrow> (error + real) option"
    and elj ent mini and iterations iterNumber :: int and ExpLogJoint r
  assume IH: "\<And>elj ent mini iterations iterNumber ExpLogJoint r.
                loop elj ent mini iterations iterNumber ExpLogJoint = Some r
                \<Longrightarrow> (iterNumber < iterations \<or> ExpLogJoint = None) \<longrightarrow> (\<forall>v. r \<noteq> Inr v)"
  assume step: "(if iterNumber < iterations then
        (case elj of
           Inl e \<Rightarrow> Some (Inl e)
         | Inr x \<Rightarrow>
            (case ent of
               Inl e \<Rightarrow> Some (Inl e)
             | Inr y \<Rightarrow>
                (case mini (x + y) of
                   Inl e \<Rightarrow> Some (Inl e)
                 | Inr res \<Rightarrow>
                    (case elj of
                       Inl e \<Rightarrow> Some (Inl e)
                     | Inr x' \<Rightarrow>
                        (case ent of
                           Inl e \<Rightarrow> Some (Inl e)
                         | Inr y' \<Rightarrow>
                            loop elj ent mini iterations iterNumber (Some x'))))))
      else (case ExpLogJoint of
              None \<Rightarrow> Some (Inl UnboundLocalError)
            | Some x \<Rightarrow> Some (Inr x))) = Some r"
  show "(iterNumber < iterations \<or> ExpLogJoint = None) \<longrightarrow> (\<forall>v. r \<noteq> Inr v)"
  proof (cases "iterNumber < iterations")
    case True
    show ?thesis
    proof (cases "\<exists>x. loop elj ent mini iterations iterNumber (Some x) = Some r")
      case True
      then obtain x where "loop elj ent mini iterations iterNumber (Some x) = Some r" by blast
      from IH [OF this] \<open>iterNumber < iterations\<close> show ?thesis by simp
    next
      case False
      then show ?thesis using step True by (auto split: sum.splits)
    qed
  next
    case False
    then show ?thesis using step by (auto split: option.splits)
  qed
qed

lemma npvi_loop_diverges:
  assumes "iterNumber < iterations"
    and "elj = Inr a" and "ent = Inr b" and "mini (a + b) = Inr ()"
  shows "EvidenceLowerBound_npvi_loop elj ent mini iterations iterNumber ExpLogJoint = None"
proof (rule ccontr)
  assume "EvidenceLowerBound_npvi_loop elj ent mini iterations iterNumber ExpLogJoint \<noteq> None"
  then obtain r where r: "EvidenceLowerBound_npvi_loop elj ent mini iterations iterNumber ExpLogJoint = Some r"
    by blast
  have "iterNumber < iterations \<and> elj = Inr a \<and> ent = Inr b \<and> mini (a + b) = Inr () \<longrightarrow> False"
  proof (rule EvidenceLowerBound_npvi_loop.raw_induct
         [where P = "\<lambda>elj ent mini iterations iterNumber ExpLogJoint r.
                       iterNumber < iterations \<and> elj = Inr a \<and> ent = Inr b \<and> mini (a + b) = Inr ()
                       \<longrightarrow> False",
          OF _ r])
    fix loop :: "(error + real) \<Rightarrow> (error + real) \<Rightarrow> (real \<Rightarrow> error + unit) \<Rightarrow> int \<Rightarrow> int
                 \<Rightarrow> real option \<Rightarrow> (error + real) option"
      and elj ent mini and iterations iterNumber :: int and ExpLogJoint r
    assume IH: "\<And>elj ent mini iterations iterNumber ExpLogJoint r.
                loop elj ent mini iterations iterNumber ExpLogJoint = Some r
                \<Longrightarrow> iterNumber < iterations \<and> elj = Inr a \<and> ent = Inr b \<and> mini (a + b) = Inr ()
                    \<longrightarrow> False"
    assume step: "(if iterNumber < iterations then
        (case elj of
           Inl e \<Rightarrow> Some (Inl e)
         | Inr x \<Rightarrow>
            (case ent of
               Inl e \<Rightarrow> Some (Inl e)
             | Inr y \<Rightarrow>
                (case mini (x + y) of
                   Inl e \<Rightarrow> Some (Inl e)
                 | Inr res \<Rightarrow>
                    (case elj of
                       Inl e \<Rightarrow> Some (Inl e)
                     | Inr x' \<Rightarrow>
                        (case ent of
                           Inl e \<Rightarrow> Some (Inl e)
                         | Inr y' \<Rightarrow>
                            loop elj ent mini iterations iterNumber (Some x'))))))
      else (case ExpLogJoint of
              None \<Rightarrow> Some (Inl UnboundLocalError)
            | Some x \<Rightarrow> Some (Inr x))) = Some r"
    show "iterNumber < iterations \<and> elj = Inr a \<and> ent = Inr b \<and> mini (a + b) = Inr () \<longrightarrow> False"
    proof
      assume h: "iterNumber < iterations \<and> elj = Inr a \<and> ent = Inr b \<and> mini (a + b) = Inr ()"
      then have "loop elj ent mini iterations iterNumber (Some a) = Some r"
        using step by simp
      from IH [OF this] h show False by simp
    qed
  qed
  then show False using assms by simp
qed

text \<open>
  Claim C7 fails on the code: \<^verbatim>\<open>EvidenceLowerBound\<close> of
  \<^verbatim>\<open>npvi.py\<close> never returns a value, whatever its arguments. With a budget of
  at least one iteration the loop never ends unless a call raises, since
  \<^verbatim>\<open>iterNumber\<close> is never incremented; with no budget the
  \<^verbatim>\<open>return ExpLogJoint\<close> after the loop reads an unbound name
  (\<open>npvi_EvidenceLowerBound_cases\<close>). And the name that statement returns is the
  expected log joint, not the sum \<^verbatim>\<open>ELBO\<close>.
\<close>

theorem npvi_EvidenceLowerBound_never_returns:
  "EvidenceLowerBound_npvi expectedLogJoint entropy minimize iterations \<noteq> Some (Inr v)"
proof
  assume "EvidenceLowerBound_npvi expectedLogJoint entropy minimize iterations = Some (Inr v)"
  then have "EvidenceLowerBound_npvi_loop expectedLogJoint entropy minimize iterations 0 None
               = Some (Inr v)"
    by (simp add: EvidenceLowerBound_npvi_def)
  from npvi_loop_no_value [OF this] show False by simp
qed

lemma npvi_EvidenceLowerBound_cases:
  "(iterations \<le> 0 \<longrightarrow>
      EvidenceLowerBound_npvi expectedLogJoint entropy minimize iterations
        = Some (Inl UnboundLocalError))
   \<and> (0 < iterations \<and> expectedLogJoint = Inr a \<and> entropy = Inr b \<and> minimize (a + b) = Inr ()
      \<longrightarrow> EvidenceLowerBound_npvi expectedLogJoint entropy minimize iterations = None)
   \<and> (0 < iterations \<and> expectedLogJoint = Inr a \<and> entropy = Inr b \<and> minimize (a + b) = Inl e
      \<longrightarrow> EvidenceLowerBound_npvi expectedLogJoint entropy minimize iterations = Some (Inl e))"
  by (auto simp: EvidenceLowerBound_npvi_def npvi_loop_diverges
                 EvidenceLowerBound_npvi_loop.simps [of _ _ _ _ 0 None])


section \<open>Proofs: the mean-field loop\<close>

lemma window_last_ten:
  "drop (length (ELB_before ar f v0 k @ [elbo_at ar f v0 k]) - 10)
        (ELB_before ar f v0 k @ [elbo_at ar f v0 k])
   = last_ten ar f v0 k"
proof -
  have full: "ELB_before ar f v0 k @ [elbo_at ar f v0 k]
                = fl_zero ar # map (elbo_at ar f v0) [0..<Suc k]"
    by (simp add: ELB_before_def)
  show ?thesis
  proof (cases "k \<le> 8")
    case True
    then show ?thesis unfolding full by (simp add: last_ten_def)
  next
    case False
    have "drop (length (fl_zero ar # map (elbo_at ar f v0) [0..<Suc k]) - 10)
               (fl_zero ar # map (elbo_at ar f v0) [0..<Suc k])
            = drop (Suc (k - 9)) (fl_zero ar # map (elbo_at ar f v0) [0..<Suc k])"
    proof -
      have "length (fl_zero ar # map (elbo_at ar f v0) [0..<Suc k]) - 10 = Suc (k - 9)"
        using False by simp
      then show ?thesis by (simp only:)
    qed
    also have "\<dots> = map (elbo_at ar f v0) (drop (k - 9) [0..<Suc k])"
      by (simp only: drop_Suc_Cons drop_map)
    also have "\<dots> = map (elbo_at ar f v0) [k - 9..<Suc k]"
      by (simp del: upt_Suc)
    also have "\<dots> = last_ten ar f v0 k"
      using False by (simp add: last_ten_def del: upt_Suc)
    finally show ?thesis unfolding full .
  qed
qed

lemma mf_loop_step:
  assumes "int j < iterations"
  shows "EvidenceLowerBound_loop ar (\<lambda>v. Inr (f v)) iterations (int j) (ELB_before ar f v0 j)
           (params_after f v0 j) (bound_before ar f v0 j)
       = (if converged_at ar f v0 j
          then Inr (int j, elbo_at ar f v0 j, muF (params_after f v0 (Suc j)),
                    muW (params_after f v0 (Suc j)))
          else EvidenceLowerBound_loop ar (\<lambda>v. Inr (f v)) iterations (int (Suc j))
                 (ELB_before ar f v0 (Suc j)) (params_after f v0 (Suc j))
                 (bound_before ar f v0 (Suc j)))"
proof -
  have e': "ELB_before ar f v0 (Suc j) = ELB_before ar f v0 j @ [elbo_at ar f v0 j]"
    by (simp add: ELB_before_def)
  have s: "fl_add ar (fl_add ar (ExpLogLike (f (params_after f v0 j)))
                              (ExpLogPrior (f (params_after f v0 j))))
                     (Entropy (f (params_after f v0 j))) = elbo_at ar f v0 j"
    by (simp add: elbo_at_def)
  have i: "int j + 1 = int (Suc j)" by simp
  show ?thesis
    by (subst EvidenceLowerBound_loop.simps)
       (simp only: assms if_True sum.case Let_def s window_last_ten e' i converged_at_def
          params_after.simps bound_before_def nat.simps if_False diff_Suc_1)
qed

lemma mf_loop_exit:
  assumes "\<not> int j < iterations" and "0 < j"
  shows "EvidenceLowerBound_loop ar (\<lambda>v. Inr (f v)) iterations (int j) (ELB_before ar f v0 j)
           (params_after f v0 j) (bound_before ar f v0 j)
       = Inr (int j, elbo_at ar f v0 (j - 1), muF (params_after f v0 j),
              muW (params_after f v0 j))"
  using assms by (subst EvidenceLowerBound_loop.simps) (simp add: bound_before_def)

lemma mf_loop_stops:
  shows "j \<le> k \<Longrightarrow> int k < iterations \<Longrightarrow> converged_at ar f v0 k
    \<Longrightarrow> (\<And>i. j \<le> i \<Longrightarrow> i < k \<Longrightarrow> \<not> converged_at ar f v0 i)
    \<Longrightarrow> EvidenceLowerBound_loop ar (\<lambda>v. Inr (f v)) iterations (int j) (ELB_before ar f v0 j)
           (params_after f v0 j) (bound_before ar f v0 j)
       = Inr (int k, elbo_at ar f v0 k, muF (params_after f v0 (Suc k)),
              muW (params_after f v0 (Suc k)))"
proof (induction "k - j" arbitrary: j)
  case 0
  then have "j = k" by simp
  then show ?case using "0.prems" by (simp add: mf_loop_step)
next
  case (Suc d)
  have lt: "j < k" using Suc.hyps(2) by simp
  then have j: "int j < iterations" using Suc.prems(2) by simp
  have nc: "\<not> converged_at ar f v0 j" using Suc.prems(4) [of j] lt by simp
  have "EvidenceLowerBound_loop ar (\<lambda>v. Inr (f v)) iterations (int (Suc j))
          (ELB_before ar f v0 (Suc j)) (params_after f v0 (Suc j)) (bound_before ar f v0 (Suc j))
       = Inr (int k, elbo_at ar f v0 k, muF (params_after f v0 (Suc k)),
              muW (params_after f v0 (Suc k)))"
  proof (rule Suc.hyps(1))
    show "d = k - Suc j" using Suc.hyps(2) by simp
    show "Suc j \<le> k" using lt by simp
    show "int k < iterations" by (rule Suc.prems(2))
    show "converged_at ar f v0 k" by (rule Suc.prems(3))
    show "\<not> converged_at ar f v0 i" if "Suc j \<le> i" "i < k" for i
      using Suc.prems(4) [of i] that by simp
  qed
  then show ?case by (simp only: mf_loop_step [OF j] nc if_False)
qed

lemma mf_loop_exhausts:
  shows "j \<le> nat iterations \<Longrightarrow> 0 < iterations
    \<Longrightarrow> (\<And>i. j \<le> i \<Longrightarrow> int i < iterations \<Longrightarrow> \<not> converged_at ar f v0 i)
    \<Longrightarrow> EvidenceLowerBound_loop ar (\<lambda>v. Inr (f v)) iterations (int j) (ELB_before ar f v0 j)
           (params_after f v0 j) (bound_before ar f v0 j)
       = Inr (iterations, elbo_at ar f v0 (nat iterations - 1),
              muF (params_after f v0 (nat iterations)), muW (params_after f v0 (nat iterations)))"
proof (induction "nat iterations - j" arbitrary: j)
  case 0
  then have j: "j = nat iterations" by simp
  then have "\<not> int j < iterations" and "0 < j" and "int j = iterations"
    using "0.prems"(2) by simp_all
  then show ?case using mf_loop_exit [of j iterations ar f v0] j by simp
next
  case (Suc d)
  have j: "int j < iterations" using Suc.hyps(2) by linarith
  have nc: "\<not> converged_at ar f v0 j" using Suc.prems(3) [of j] j by simp
  have "EvidenceLowerBound_loop ar (\<lambda>v. Inr (f v)) iterations (int (Suc j))
          (ELB_before ar f v0 (Suc j)) (params_after f v0 (Suc j)) (bound_before ar f v0 (Suc j))
       = Inr (iterations, elbo_at ar f v0 (nat iterations - 1),
              muF (params_after f v0 (nat iterations)), muW (params_after f v0 (nat iterations)))"
  proof (rule Suc.hyps(1))
    show "d = nat iterations - Suc j" using Suc.hyps(2) by simp
    show "Suc j \<le> nat iterations" using j by linarith
    show "0 < iterations" by (rule Suc.prems(2))
    show "\<not> converged_at ar f v0 i" if "Suc j \<le> i" "int i < iterations" for i
      using Suc.prems(3) [of i] that by simp
  qed
  then show ?case by (simp only: mf_loop_step [OF j] nc if_False)
qed

lemma EvidenceLowerBound_start:
  "EvidenceLowerBound ar (\<lambda>v. Inr (f v)) iterations v0
      = EvidenceLowerBound_loop ar (\<lambda>v. Inr (f v)) iterations (int 0) (ELB_before ar f v0 0)
          (params_after f v0 0) (bound_before ar f v0 0)"
  by (simp add: EvidenceLowerBound_def ELB_before_def bound_before_def)

lemma EvidenceLowerBound_no_budget:
  "iterations \<le> 0 \<Longrightarrow> EvidenceLowerBound ar body iterations v0 = Inl UnboundLocalError"
  by (simp add: EvidenceLowerBound_def EvidenceLowerBound_loop.simps)

text \<open>
  Claim C6, as the code has it, for a loop body \<open>f\<close> that does not raise and in the
  arithmetic \<open>ar\<close> of the engine's floats. Iteration \<open>k\<close> (counted from 0)
  converges when the absolute difference between its bound and the mean of the last ten
  entries of \<^verbatim>\<open>ELB\<close> is below \<^verbatim>\<open>1e-10\<close> and not zero, where
  \<^verbatim>\<open>ELB\<close> starts as the placeholder \<open>[0]\<close> and already holds the bound of
  iteration \<open>k\<close>: up to \<open>k = 8\<close> the placeholder is one of the numbers averaged.
  \<^item> If \<open>k\<close> is the first iteration that converges and is within the budget, the loop
    stops there: it prints \<open>k\<close> and returns the bound of iteration \<open>k\<close> with the
    node and weight means that iteration fitted.
  \<^item> If no iteration within a budget of at least one converges, the loop runs the whole
    budget: it prints \<open>iterations\<close> and returns the bound and the means of the last
    iteration.
  Nothing is said of a budget of zero or less, where there is no bound to return and the
  method raises (\<open>EvidenceLowerBound_no_budget\<close>).
\<close>

theorem EvidenceLowerBound_stopping:
  "(\<forall>k. int k < iterations \<and> converged_at ar f v0 k \<and> (\<forall>j<k. \<not> converged_at ar f v0 j)
      \<longrightarrow> EvidenceLowerBound ar (\<lambda>v. Inr (f v)) iterations v0
          = Inr (int k, elbo_at ar f v0 k, muF (params_after f v0 (Suc k)),
                 muW (params_after f v0 (Suc k))))
   \<and> (0 < iterations \<and> (\<forall>k. int k < iterations \<longrightarrow> \<not> converged_at ar f v0 k)
      \<longrightarrow> EvidenceLowerBound ar (\<lambda>v. Inr (f v)) iterations v0
          = Inr (iterations, elbo_at ar f v0 (nat iterations - 1),
                 muF (params_after f v0 (nat iterations)),
                 muW (params_after f v0 (nat iterations))))"
proof -
  have a: "EvidenceLowerBound ar (\<lambda>v. Inr (f v)) iterations v0
          = Inr (int k, elbo_at ar f v0 k, muF (params_after f v0 (Suc k)),
                 muW (params_after f v0 (Suc k)))"
    if "int k < iterations" "converged_at ar f v0 k" "\<forall>j<k. \<not> converged_at ar f v0 j" for k
    unfolding EvidenceLowerBound_start using that by (intro mf_loop_stops) simp_all
  have b: "EvidenceLowerBound ar (\<lambda>v. Inr (f v)) iterations v0
          = Inr (iterations, elbo_at ar f v0 (nat iterations - 1),
                 muF (params_after f v0 (nat iterations)),
                 muW (params_after f v0 (nat iterations)))"
    if "0 < iterations" "\<forall>k. int k < iterations \<longrightarrow> \<not> converged_at ar f v0 k"
    unfolding EvidenceLowerBound_start using that by (intro mf_loop_exhausts) simp_all
  show ?thesis using a b by blast
qed

lemma const_params:
  "params_after (\<lambda>v. \<lparr>updated = v, Entropy = 0, ExpLogPrior = 0, ExpLogLike = c\<rparr>) v0 k = v0"
  by (induction k) simp_all

lemma const_elbo:
  "elbo_at (mean_off_by d)
     (\<lambda>v. \<lparr>updated = v, Entropy = 0, ExpLogPrior = 0, ExpLogLike = c\<rparr>) v0 k = c"
  by (simp add: elbo_at_def mean_off_by_def)

lemma map_const_replicate: "map (\<lambda>x. c) xs = replicate (length xs) c"
  by (induction xs) simp_all

lemma const_criteria:
  "fl_abs (mean_off_by d)
     (fl_sub (mean_off_by d)
        (fl_mean (mean_off_by d)
           (last_ten (mean_off_by d)
              (\<lambda>v. \<lparr>updated = v, Entropy = 0, ExpLogPrior = 0, ExpLogLike = c\<rparr>) v0 k))
        (elbo_at (mean_off_by d)
           (\<lambda>v. \<lparr>updated = v, Entropy = 0, ExpLogPrior = 0, ExpLogLike = c\<rparr>) v0 k))
   = (if k \<le> 8 then \<bar>d - c / real (k + 2)\<bar> else \<bar>d\<bar>)"
proof -
  let ?f = "\<lambda>v. \<lparr>updated = v, Entropy = 0, ExpLogPrior = 0, ExpLogLike = c\<rparr>"
  have E: "elbo_at (mean_off_by d) ?f v0 = (\<lambda>k. c)"
    by (rule ext) (rule const_elbo)
  have z: "fl_zero (mean_off_by d) = 0" by (simp add: mean_off_by_def)
  have ops: "fl_abs (mean_off_by d) = abs" "fl_sub (mean_off_by d) = (-)"
    "fl_mean (mean_off_by d) = (\<lambda>xs. np_mean xs + d)"
    by (simp_all add: mean_off_by_def)
  show ?thesis
  proof (cases "k \<le> 8")
    case True
    have w: "last_ten (mean_off_by d) ?f v0 k = 0 # replicate (Suc k) c"
      using True unfolding last_ten_def E z
      by (simp add: map_const_replicate del: upt_Suc replicate.simps)
    have m: "np_mean (0 # replicate (Suc k) c) = real (k + 1) * c / real (k + 2)"
      by (simp add: np_mean_def sum_list_replicate del: replicate.simps)
    have "real (k + 1) * c / real (k + 2) + d - c = d - c / real (k + 2)"
      by (simp add: field_simps)
    then show ?thesis
      unfolding w const_elbo ops m using True by simp
  next
    case False
    have "length [k - 9..<Suc k] = 10" using False by simp
    then have w: "last_ten (mean_off_by d) ?f v0 k = replicate 10 c"
      using False unfolding last_ten_def E
      by (simp add: map_const_replicate del: upt_Suc replicate.simps)
    have m: "np_mean (replicate 10 c) = c"
      by (simp add: np_mean_def sum_list_replicate del: replicate.simps)
    show ?thesis
      unfolding w const_elbo ops m using False by simp
  qed
qed

lemma const_converged:
  "converged_at (mean_off_by d)
     (\<lambda>v. \<lparr>updated = v, Entropy = 0, ExpLogPrior = 0, ExpLogLike = c\<rparr>) v0 k
   = ((if k \<le> 8 then \<bar>d - c / real (k + 2)\<bar> else \<bar>d\<bar>) < 1 / 10 ^ 10
      \<and> (if k \<le> 8 then \<bar>d - c / real (k + 2)\<bar> else \<bar>d\<bar>) \<noteq> 0)"
  unfolding converged_at_def const_criteria by (simp add: mean_off_by_def)

lemma early_far:
  assumes "k \<le> 8" and "0 \<le> d" and "d \<le> 1 / 100"
  shows "\<not> \<bar>d - (3 / 10) / real (k + 2)\<bar> < 1 / 10 ^ 10"
proof -
  have "real (k + 2) \<le> 10" using assms(1) by simp
  then have "3 / 100 \<le> (3 / 10) / real (k + 2)" by (simp add: field_simps)
  then have "1 / 50 \<le> (3 / 10) / real (k + 2) - d" using assms(3) by simp
  then show ?thesis by simp
qed

text \<open>
  Two runs on a bound that is \<open>0.3\<close> in every iteration. When the mean of ten equal
  numbers is off by \<open>10\<^sup>-\<^sup>1\<^sup>7\<close>, as a rounded mean is, the loop stops at iteration 9,
  the first whose ten numbers are all bounds. In exact arithmetic the difference is zero
  from iteration 9 on and the loop runs out its budget of 12.
\<close>

theorem EvidenceLowerBound_stopping_witness:
  "EvidenceLowerBound (mean_off_by (1 / 10 ^ 17))
     (\<lambda>v. Inr \<lparr>updated = v, Entropy = 0, ExpLogPrior = 0, ExpLogLike = 3 / 10\<rparr>) 100
     \<lparr>muF = [[[0]]], varF = [[[1]]], muW = [[[2]]], varW = [[[1]]]\<rparr>
     = Inr (9, 3 / 10, [[[0]]], [[[2]]])
   \<and> EvidenceLowerBound exact_arithmetic
     (\<lambda>v. Inr \<lparr>updated = v, Entropy = 0, ExpLogPrior = 0, ExpLogLike = 3 / 10\<rparr>) 12
     \<lparr>muF = [[[0]]], varF = [[[1]]], muW = [[[2]]], varW = [[[1]]]\<rparr>
     = Inr (12, 3 / 10, [[[0]]], [[[2]]])"
proof -
  let ?v0 = "\<lparr>muF = [[[0]]], varF = [[[1]]], muW = [[[2]]], varW = [[[1]]]\<rparr>"
  let ?f = "\<lambda>v. \<lparr>updated = v, Entropy = 0, ExpLogPrior = 0, ExpLogLike = 3 / 10 :: real\<rparr>"
  let ?r = "mean_off_by (1 / 10 ^ 17)"
  have c1: "int 9 < 100 \<and> converged_at ?r ?f ?v0 9 \<and> (\<forall>j<9. \<not> converged_at ?r ?f ?v0 j)"
  proof (intro conjI allI impI)
    show "int 9 < 100" by simp
    show "converged_at ?r ?f ?v0 9" by (simp add: const_converged)
  next
    fix j :: nat assume "j < 9"
    then have j: "j \<le> 8" by simp
    have "\<not> \<bar>1 / 10 ^ 17 - (3 / 10) / real (j + 2)\<bar> < 1 / 10 ^ 10"
      by (rule early_far [OF j]) simp_all
    then show "\<not> converged_at ?r ?f ?v0 j"
      unfolding const_converged using j by (simp only: if_True simp_thms)
  qed
  have c2: "(0::int) < 12 \<and> (\<forall>k. int k < 12 \<longrightarrow> \<not> converged_at (mean_off_by 0) ?f ?v0 k)"
  proof (intro conjI allI impI)
    show "(0::int) < 12" by simp
  next
    fix k :: nat
    show "\<not> converged_at (mean_off_by 0) ?f ?v0 k"
    proof (cases "k \<le> 8")
      case True
      have "\<not> \<bar>0 - (3 / 10) / real (k + 2)\<bar> < 1 / 10 ^ 10"
        by (rule early_far [OF True]) simp_all
      then show ?thesis
        unfolding const_converged using True by (simp only: if_True simp_thms)
    next
      case False
      then show ?thesis unfolding const_converged by simp
    qed
  qed
  have r1: "EvidenceLowerBound ?r (\<lambda>v. Inr (?f v)) 100 ?v0
      = Inr (int 9, elbo_at ?r ?f ?v0 9, muF (params_after ?f ?v0 (Suc 9)),
             muW (params_after ?f ?v0 (Suc 9)))"
    by (rule EvidenceLowerBound_stopping [of 100 ?r ?f ?v0, THEN conjunct1,
               THEN spec [where x = 9], THEN mp, OF c1])
  have r2: "EvidenceLowerBound (mean_off_by 0) (\<lambda>v. Inr (?f v)) 12 ?v0
      = Inr (12, elbo_at (mean_off_by 0) ?f ?v0 (nat 12 - 1),
             muF (params_after ?f ?v0 (nat 12)), muW (params_after ?f ?v0 (nat 12)))"
    by (rule EvidenceLowerBound_stopping [of 12 "mean_off_by 0" ?f ?v0, THEN conjunct2,
               THEN mp, OF c2])
  show ?thesis
    unfolding exact_arithmetic_def r1 r2 by (simp add: const_params const_elbo)
qed

text \<open>
  Claim C6 as stated fails twice. In the first iteration the only bound recorded is the
  current one, \<open>10\<^sup>-\<^sup>1\<^sup>0\<close>, so its difference to the mean of the recorded bounds is
  zero; but the loop averages the placeholder too and stops. And with a budget of zero
  the method does not return: it raises \<^verbatim>\<open>UnboundLocalError\<close>.
\<close>

theorem EvidenceLowerBound_stopping_counterexample:
  "EvidenceLowerBound exact_arithmetic
     (\<lambda>v. Inr \<lparr>updated = v, Entropy = 0, ExpLogPrior = 0, ExpLogLike = 1 / 10 ^ 10\<rparr>) 5
     \<lparr>muF = [[[0]]], varF = [[[1]]], muW = [[[2]]], varW = [[[1]]]\<rparr>
     = Inr (0, 1 / 10 ^ 10, [[[0]]], [[[2]]])
   \<and> EvidenceLowerBound exact_arithmetic
     (\<lambda>v. Inr \<lparr>updated = v, Entropy = 0, ExpLogPrior = 0, ExpLogLike = 1 / 10 ^ 10\<rparr>) 0
     \<lparr>muF = [[[0]]], varF = [[[1]]], muW = [[[2]]], varW = [[[1]]]\<rparr>
     = Inl UnboundLocalError"
proof -
  let ?v0 = "\<lparr>muF = [[[0]]], varF = [[[1]]], muW = [[[2]]], varW = [[[1]]]\<rparr>"
  let ?f = "\<lambda>v. \<lparr>updated = v, Entropy = 0, ExpLogPrior = 0, ExpLogLike = 1 / 10 ^ 10 :: real\<rparr>"
  have c: "converged_at (mean_off_by 0) ?f ?v0 0"
    by (subst const_converged) simp
  have "EvidenceLowerBound (mean_off_by 0) (\<lambda>v. Inr (?f v)) 5 ?v0
      = Inr (int 0, elbo_at (mean_off_by 0) ?f ?v0 0, muF (params_after ?f ?v0 (Suc 0)),
             muW (params_after ?f ?v0 (Suc 0)))"
    unfolding EvidenceLowerBound_start
    by (rule mf_loop_stops [OF _ _ c]) simp_all
  moreover have "EvidenceLowerBound (mean_off_by 0) (\<lambda>v. Inr (?f v)) 0 ?v0 = Inl UnboundLocalError"
    by (rule EvidenceLowerBound_no_budget) simp
  ultimately show ?thesis
    unfolding exact_arithmetic_def by (simp add: const_elbo)
qed

end
